theory Spec2Isabelle
  imports Main "HOL-Library.Sublist"
begin

section \<open>Strings\<close>

text \<open>
  A Python \<open>str\<close> is a sequence of Unicode code points; it is modelled as a list of
  natural numbers. ASCII literals of the source are written as HOL strings and converted
  by \<open>u\<close>; the Persian literals of the source are written as code-point lists.
\<close>

type_synonym ustr = "nat list"

definition u :: "string \<Rightarrow> ustr" where
  "u s = map of_char s"

text \<open>
  The characters removed by \<open>str.strip()\<close> without argument: the code points for which
  \<open>str.isspace\<close> holds.
\<close>

definition isspace :: "nat \<Rightarrow> bool" where
  "isspace c = ((9 \<le> c \<and> c \<le> 13) \<or> (28 \<le> c \<and> c \<le> 32) \<or> c = 133 \<or> c = 160
      \<or> c = 5760 \<or> (8192 \<le> c \<and> c \<le> 8202) \<or> c = 8232 \<or> c = 8233
      \<or> c = 8239 \<or> c = 8287 \<or> c = 12288)"

definition strip :: "ustr \<Rightarrow> ustr" where
  "strip s = rev (dropWhile isspace (rev (dropWhile isspace s)))"

text \<open>
  \<open>s.replace(old, "")\<close>: every non-overlapping occurrence of \<open>old\<close>, found from the
  left, is deleted. With an empty \<open>old\<close> Python inserts the (empty) replacement
  between the characters, which leaves \<open>s\<close> as it is.
\<close>

function replace_with_empty :: "ustr \<Rightarrow> ustr \<Rightarrow> ustr" where
  "replace_with_empty old [] = []"
| "replace_with_empty old (c # cs) =
     (if old \<noteq> [] \<and> prefix old (c # cs)
      then replace_with_empty old (drop (length old) (c # cs))
      else c # replace_with_empty old cs)"
  by pat_completeness auto
termination
  by (relation "measure (\<lambda>(old, s). length s)") (auto simp: neq_Nil_conv)

text \<open>\<open>str(n)\<close> of a non-negative integer: its decimal digits.\<close>

function str_nat :: "nat \<Rightarrow> ustr" where
  "str_nat n = (if n < 10 then [48 + n] else str_nat (n div 10) @ [48 + n mod 10])"
  by pat_completeness auto
termination
  by (relation "measure id") auto

declare str_nat.simps [simp del]

section \<open>Parsed documents\<close>

text \<open>
  The tree that \<open>BeautifulSoup(html, "html.parser")\<close> builds, restricted to what the
  program reads of it: an element has a tag name, the values of its \<open>class\<close>
  attribute (a multi-valued attribute, split at whitespace) and its children in document
  order; a text node holds its string. Comments and other special string nodes are outside
  the model. The parser itself belongs to the library and is a parameter of the request
  handler below.
\<close>

datatype node = NavigableString ustr | Tag ustr "ustr list" "node list"

fun contents :: "node \<Rightarrow> node list" where
  "contents (NavigableString s) = []"
| "contents (Tag n cs kids) = kids"

text \<open>\<open>tag.descendants\<close>: all nodes below the tag, in document order (pre-order).\<close>

fun descendants :: "node \<Rightarrow> node list" where
  "descendants (NavigableString s) = []"
| "descendants (Tag n cs kids) = concat (map (\<lambda>k. k # descendants k) kids)"

text \<open>
  The same traversal, each node paired with its \<open>.parent\<close> (a tree value carries no
  pointer to its parent, so the search that needs it returns the pair).
\<close>

fun descendants_with_parent :: "node \<Rightarrow> (node \<times> node) list" where
  "descendants_with_parent (NavigableString s) = []"
| "descendants_with_parent (Tag n cs kids) =
     concat (map (\<lambda>k. (Tag n cs kids, k) # descendants_with_parent k) kids)"

fun tag_named :: "ustr \<Rightarrow> node \<Rightarrow> bool" where
  "tag_named nm (NavigableString s) = False"
| "tag_named nm (Tag n cs kids) = (n = nm)"

fun has_class :: "ustr \<Rightarrow> node \<Rightarrow> bool" where
  "has_class c (NavigableString s) = False"
| "has_class c (Tag n cs kids) = (c \<in> set cs)"

text \<open>
  \<open>tag.string\<close>: the string of a text node; for an element with exactly one child, that
  child's \<open>.string\<close>; otherwise \<open>None\<close>.
\<close>

fun tag_string :: "node \<Rightarrow> ustr option" where
  "tag_string (NavigableString s) = Some s"
| "tag_string (Tag n cs [k]) = tag_string k"
| "tag_string (Tag n cs kids) = None"

text \<open>\<open>tag.find_all(name)\<close> and \<open>tag.find_all(name, class_=c)\<close>.\<close>

definition soup_find_all :: "ustr \<Rightarrow> node \<Rightarrow> node list" where
  "soup_find_all nm t = filter (tag_named nm) (descendants t)"

definition soup_find_all_class :: "ustr \<Rightarrow> ustr \<Rightarrow> node \<Rightarrow> node list" where
  "soup_find_all_class nm c t = filter (\<lambda>x. tag_named nm x \<and> has_class c x) (descendants t)"

text \<open>\<open>tag.find(...)\<close>: the first result of \<open>find_all\<close>, or \<open>None\<close>.\<close>

definition soup_find :: "ustr \<Rightarrow> node \<Rightarrow> node option" where
  "soup_find nm t = (case soup_find_all nm t of [] \<Rightarrow> None | x # xs \<Rightarrow> Some x)"

definition soup_find_class :: "ustr \<Rightarrow> ustr \<Rightarrow> node \<Rightarrow> node option" where
  "soup_find_class nm c t = (case soup_find_all_class nm c t of [] \<Rightarrow> None | x # xs \<Rightarrow> Some x)"

text \<open>
  \<open>tag.find(name, string=caption)\<close> for a non-empty caption: the first element named
  \<open>name\<close> whose \<open>.string\<close> equals the caption. The result is the pair of the
  element's parent and the element.
\<close>

definition soup_find_string :: "ustr \<Rightarrow> ustr \<Rightarrow> node \<Rightarrow> (node \<times> node) option" where
  "soup_find_string nm caption t =
     (case filter (\<lambda>(p, x). tag_named nm x \<and> tag_string x = Some caption)
             (descendants_with_parent t) of
        [] \<Rightarrow> None
      | px # pxs \<Rightarrow> Some px)"

text \<open>
  \<open>tag.get_text(strip=True)\<close>: the strings of all text nodes below the tag, each
  stripped, the empty ones dropped, joined without separator.
\<close>

fun all_strings :: "node \<Rightarrow> ustr list" where
  "all_strings (NavigableString s) = [s]"
| "all_strings (Tag n cs kids) = concat (map all_strings kids)"

definition get_text_strip :: "node \<Rightarrow> ustr" where
  "get_text_strip t = concat (filter (\<lambda>s. s \<noteq> []) (map strip (all_strings t)))"

section \<open>Parsers\<close>

record product_line =
  p_name :: ustr
  p_attrs :: ustr
  p_code :: ustr
  p_quantity :: ustr

record order_record =
  order_number :: ustr
  order_date :: ustr
  full_name :: ustr
  phone :: ustr
  zipcode :: ustr
  address :: ustr
  products :: "product_line list"

definition extract_orders :: "node \<Rightarrow> node list" where
  "extract_orders soup = soup_find_all_class (u ''table'') (u ''wrapper'') soup"

definition get_text_by_caption :: "node \<Rightarrow> ustr \<Rightarrow> ustr" where
  "get_text_by_caption order_soup caption =
     (case soup_find_string (u ''span'') caption order_soup of
        Some (parent, span) \<Rightarrow> replace_with_empty caption (get_text_strip parent)
      | None \<Rightarrow> [])"

text \<open>The six captions of the source (lines 28 to 33), as code points.\<close>

definition caption_order_number :: ustr where
  "caption_order_number =
     [1588, 1605, 1575, 1585, 1607, 32, 1587, 1601, 1575, 1585, 1588, 58, 32]"

definition caption_order_date :: ustr where
  "caption_order_date =
     [1578, 1575, 1585, 1740, 1582, 32, 1579, 1576, 1578, 32, 1587, 1601, 1575, 1585, 1588,
      58, 32]"

definition caption_full_name :: ustr where
  "caption_full_name =
     [1606, 1575, 1605, 32, 1608, 32, 1606, 1575, 1605, 8204, 1582, 1575, 1606, 1608, 1575,
      1583, 1711, 1740, 58, 32]"

definition caption_phone :: ustr where
  "caption_phone = [1588, 1605, 1575, 1585, 1607, 32, 1578, 1605, 1575, 1587, 58]"

definition caption_zipcode :: ustr where
  "caption_zipcode =
     [1705, 1583, 32, 1662, 1587, 1578, 1740, 32, 1711, 1740, 1585, 1606, 1583, 1607, 58]"

definition caption_address :: ustr where
  "caption_address = [1570, 1583, 1585, 1587, 32, 1711, 1740, 1585, 1606, 1583, 1607, 58]"

text \<open>
  The body of the row loop (lines 39 to 58). \<open>tds\<close> has at least four entries where
  \<open>tds[2]\<close> and \<open>tds[3]\<close> are read, and no call inside the \<open>try\<close> block can raise
  on a tree of this model, so the \<open>except\<close> branch has no counterpart.
\<close>

definition text_of_first :: "ustr \<Rightarrow> node \<Rightarrow> ustr" where
  "text_of_first nm t = (case soup_find nm t of Some x \<Rightarrow> get_text_strip x | None \<Rightarrow> [])"

definition product_of_cells :: "node \<Rightarrow> node list \<Rightarrow> product_line" where
  "product_of_cells h2 tds =
     \<lparr> p_name = get_text_strip h2,
       p_attrs = (case soup_find_class (u ''span'') (u ''product-attrs'') (tds ! 1) of
                    Some a \<Rightarrow> get_text_strip a | None \<Rightarrow> []),
       p_code = text_of_first (u ''span'') (tds ! 2),
       p_quantity = text_of_first (u ''span'') (tds ! 3) \<rparr>"

fun products_loop :: "node list \<Rightarrow> product_line list \<Rightarrow> product_line list" where
  "products_loop [] prods = prods"
| "products_loop (row # rows) prods =
     (let tds = soup_find_all (u ''td'') row in
      if length tds < 4 then products_loop rows prods
      else (case soup_find (u ''h2'') (tds ! 1) of
              None \<Rightarrow> products_loop rows prods
            | Some h2 \<Rightarrow> products_loop rows (prods @ [product_of_cells h2 tds])))"

definition extract_products :: "node \<Rightarrow> product_line list" where
  "extract_products order_soup =
     (case soup_find_class (u ''table'') (u ''products'') order_soup of
        Some products_table \<Rightarrow> products_loop (soup_find_all (u ''tr'') products_table) []
      | None \<Rightarrow> [])"

definition extract_order_data :: "node \<Rightarrow> order_record" where
  "extract_order_data order_soup =
     \<lparr> order_number = get_text_by_caption order_soup caption_order_number,
       order_date = get_text_by_caption order_soup caption_order_date,
       full_name = get_text_by_caption order_soup caption_full_name,
       phone = get_text_by_caption order_soup caption_phone,
       zipcode = get_text_by_caption order_soup caption_zipcode,
       address = get_text_by_caption order_soup caption_address,
       products = extract_products order_soup \<rparr>"

section \<open>Report renderer\<close>

text \<open>
  \<open>generate_html_for_orders\<close> (lines 70 to 144). Each f-string is the concatenation of
  its literal pieces, one per source line, and the interpolated values. An order is a
  record with the seven keys that \<open>extract_order_data\<close> always sets, so the defaults of
  \<open>order.get\<close> and \<open>p.get\<close> are never taken; every value is a \<open>str\<close> and is
  inserted as it is.
\<close>

definition product_row_html :: "product_line \<Rightarrow> ustr" where
  \<open>product_row_html p =
     u ''\<newline>''
     @ u ''            <tr>\<newline>''
     @ u ''                <td>'' @ p_name p @ u ''</td>\<newline>''
     @ u ''                <td>'' @ p_attrs p @ u ''</td>\<newline>''
     @ u ''                <td>'' @ p_code p @ u ''</td>\<newline>''
     @ u ''                <td>'' @ p_quantity p @ u ''</td>\<newline>''
     @ u ''            </tr>\<newline>''
     @ u ''            ''\<close>

fun product_rows_loop :: "product_line list \<Rightarrow> ustr \<Rightarrow> ustr" where
  "product_rows_loop [] product_rows = product_rows"
| "product_rows_loop (p # ps) product_rows =
     product_rows_loop ps (product_rows @ product_row_html p)"

definition products_table_html :: "ustr \<Rightarrow> ustr" where
  \<open>products_table_html product_rows =
     u ''\<newline>''
     @ u ''        <table class="products">\<newline>''
     @ u ''            <thead>\<newline>''
     @ u ''                <tr>\<newline>''
     @ u ''                    <th>'' @ [1606, 1575, 1605, 32, 1605, 1581, 1589, 1608, 1604]
     @ u ''</th>\<newline>''
     @ u ''                    <th>'' @ [1608, 1740, 1688, 1711, 1740, 8204, 1607, 1575]
     @ u ''</th>\<newline>''
     @ u ''                    <th>'' @ [1705, 1583] @ u ''</th>\<newline>''
     @ u ''                    <th>'' @ [1578, 1593, 1583, 1575, 1583] @ u ''</th>\<newline>''
     @ u ''                </tr>\<newline>''
     @ u ''            </thead>\<newline>''
     @ u ''            <tbody>\<newline>''
     @ u ''                '' @ product_rows @ u ''\<newline>''
     @ u ''            </tbody>\<newline>''
     @ u ''        </table>\<newline>''
     @ u ''        ''\<close>

text \<open>The opening of a section up to the visible number, and the rest of the section.\<close>

definition section_heading :: "nat \<Rightarrow> ustr" where
  \<open>section_heading i =
     u ''\<newline>''
     @ u ''        <section style="border:1px solid #ccc; margin-bottom:30px; padding:10px;">\<newline>''
     @ u ''            <h2>'' @ [1587, 1601, 1575, 1585, 1588, 32, 1588, 1605, 1575, 1585, 1607]
     @ u '' '' @ str_nat i @ u ''</h2>\<newline>''\<close>

definition section_body :: "ustr \<Rightarrow> order_record \<Rightarrow> ustr" where
  \<open>section_body products_table order =
     u ''            '' @ products_table @ u ''\<newline>''
     @ u ''            <div><strong>''
     @ [1588, 1605, 1575, 1585, 1607, 32, 1587, 1601, 1575, 1585, 1588]
     @ u '':</strong> '' @ order_number order @ u ''</div>\<newline>''
     @ u ''            <div><strong>''
     @ [1578, 1575, 1585, 1740, 1582, 32, 1579, 1576, 1578, 32, 1587, 1601, 1575, 1585, 1588]
     @ u '':</strong> '' @ order_date order @ u ''</div>\<newline>''
     @ u ''            <div><strong>''
     @ [1606, 1575, 1605, 32, 1608, 32, 1606, 1575, 1605, 8204, 1582, 1575, 1606, 1608, 1575,
        1583, 1711, 1740]
     @ u '':</strong> '' @ full_name order @ u ''</div>\<newline>''
     @ u ''            <div><strong>'' @ [1588, 1605, 1575, 1585, 1607, 32, 1578, 1605, 1575, 1587]
     @ u '':</strong> '' @ phone order @ u ''</div>\<newline>''
     @ u ''            <div><strong>''
     @ [1705, 1583, 32, 1662, 1587, 1578, 1740, 32, 1711, 1740, 1585, 1606, 1583, 1607]
     @ u '':</strong> '' @ zipcode order @ u ''</div>\<newline>''
     @ u ''            <div><strong>''
     @ [1570, 1583, 1585, 1587, 32, 1711, 1740, 1585, 1606, 1583, 1607]
     @ u '':</strong> '' @ address order @ u ''</div>\<newline>''
     @ u ''        </section>\<newline>''
     @ u ''        ''\<close>

definition order_html :: "nat \<Rightarrow> order_record \<Rightarrow> ustr" where
  "order_html i order =
     section_heading i
     @ section_body (products_table_html (product_rows_loop (products order) [])) order"

fun orders_loop :: "nat \<Rightarrow> order_record list \<Rightarrow> ustr \<Rightarrow> ustr" where
  "orders_loop i [] all_orders_html = all_orders_html"
| "orders_loop i (order # orders_data) all_orders_html =
     orders_loop (Suc i) orders_data (all_orders_html @ order_html i order)"

definition document_head :: ustr where
  \<open>document_head =
     u ''\<newline>''
     @ u ''    <!DOCTYPE html>\<newline>''
     @ u ''    <html lang="fa">\<newline>''
     @ u ''    <head>\<newline>''
     @ u ''        <meta charset="UTF-8" />\<newline>''
     @ u ''        <title>''
     @ [1601, 1575, 1705, 1578, 1608, 1585, 1607, 1575, 1740, 32, 1575, 1587, 1578, 1582, 1585,
        1575, 1580, 32, 1588, 1583, 1607]
     @ u ''</title>\<newline>''
     @ u ''        <style>\<newline>''
     @ u ''            body {\<newline>''
     @ u ''                direction: rtl;\<newline>''
     @ u ''                font-family: Tahoma, Arial, sans-serif;\<newline>''
     @ u ''                margin: 20px;\<newline>''
     @ u ''                font-size: 14px;\<newline>''
     @ u ''            }\<newline>''
     @ u ''            table.products {\<newline>''
     @ u ''                border-collapse: collapse;\<newline>''
     @ u ''                width: 100%;\<newline>''
     @ u ''                margin-top: 10px;\<newline>''
     @ u ''            }\<newline>''
     @ u ''            table.products th, table.products td {\<newline>''
     @ u ''                border: 1px solid #ccc;\<newline>''
     @ u ''                padding: 8px;\<newline>''
     @ u ''                text-align: right;\<newline>''
     @ u ''            }\<newline>''
     @ u ''            table.products th {\<newline>''
     @ u ''                background-color: #eee;\<newline>''
     @ u ''            }\<newline>''
     @ u ''        </style>\<newline>''
     @ u ''    </head>\<newline>''
     @ u ''    <body>\<newline>''
     @ u ''        ''\<close>

definition document_tail :: ustr where
  \<open>document_tail =
     u ''\<newline>''
     @ u ''    </body>\<newline>''
     @ u ''    </html>\<newline>''
     @ u ''    ''\<close>

definition generate_html_for_orders :: "order_record list \<Rightarrow> ustr" where
  "generate_html_for_orders orders_data =
     document_head @ orders_loop 1 orders_data [] @ document_tail"

section \<open>Configuration, network and files\<close>

record config =
  TELEGRAM_BOT_TOKEN :: ustr
  TELEGRAM_CHAT_ID :: ustr
  API_KEY :: ustr

text \<open>
  A response of the \<open>requests\<close> library: its status code, its text, and the value of
  \<open>resp.json()\<close> (\<open>None\<close> where that call raises). The JSON value is opaque.
\<close>

record 'j response =
  resp_status_code :: nat
  resp_text :: ustr
  resp_json :: "'j option"

definition resp_ok :: "'j response \<Rightarrow> bool" where
  "resp_ok r = (\<not> (400 \<le> resp_status_code r \<and> resp_status_code r < 600))"

record post_request =
  post_url :: ustr
  post_chat_id :: ustr
  post_caption :: ustr
  post_parse_mode :: ustr
  post_filename :: ustr
  post_document :: "nat list"
  post_content_type :: ustr

datatype event = GetRequest ustr | PostRequest post_request

text \<open>
  What the handler meets outside the program: the HTML parser, the UTF-8 encoder, the two
  calls of \<open>requests\<close> (\<open>Inl\<close> is the exception that the call raises, for instance a
  connection error or a timeout), the name that \<open>NamedTemporaryFile\<close> picks, and whether
  \<open>os.remove\<close> raises. Creating, writing and reading the temporary file are taken to
  succeed.
\<close>

record 'j env =
  parse_html :: "ustr \<Rightarrow> node"
  encode_utf8 :: "ustr \<Rightarrow> nat list"
  requests_get :: "ustr \<Rightarrow> ustr + 'j response"
  requests_post :: "post_request \<Rightarrow> ustr + 'j response"
  tmp_name :: ustr
  remove_raises :: bool

text \<open>The state that a request changes: the files on disk and the network calls made.\<close>

record world =
  files :: "ustr \<rightharpoonup> nat list"
  net_log :: "event list"

section \<open>Delivery adapter\<close>

datatype 'j payload = Json 'j | StatusText nat ustr

text \<open>
  The dictionary that \<open>send_to_telegram\<close> returns: \<open>{"ok": False, "error": msg}\<close> or
  \<open>{"ok": resp.ok, "resp": j}\<close>.
\<close>

datatype 'j tg_result = TgError ustr | TgResp bool "'j payload"

fun tg_ok :: "'j tg_result \<Rightarrow> bool" where
  "tg_ok (TgError msg) = False"
| "tg_ok (TgResp b j) = b"

definition default_caption :: ustr where
  "default_caption =
     [128196, 32, 1601, 1575, 1705, 1578, 1608, 1585, 1607, 1575, 1740, 32, 1587, 1601, 1575,
      1585, 1588, 8204, 1607, 1575, 32, 1570, 1605, 1575, 1583, 1607, 32, 1588, 1583, 46, 32,
      1604, 1591, 1601, 1575, 1611, 32, 1576, 1585, 1585, 1587, 1740, 32, 1601, 1585, 1605,
      1575, 1740, 1740, 1583, 46]"

definition send_to_telegram ::
  "config \<Rightarrow> 'j env \<Rightarrow> nat list \<Rightarrow> ustr \<Rightarrow> ustr \<Rightarrow> world \<Rightarrow> (ustr + 'j tg_result) \<times> world" where
  "send_to_telegram cfg env file_bytes filename caption w =
     (if TELEGRAM_BOT_TOKEN cfg = [] \<or> TELEGRAM_CHAT_ID cfg = []
      then (Inr (TgError (u ''TELEGRAM_BOT_TOKEN or TELEGRAM_CHAT_ID not set'')), w)
      else
        (let req = \<lparr> post_url = u ''https://api.telegram.org/bot'' @ TELEGRAM_BOT_TOKEN cfg
                                   @ u ''/sendDocument'',
                      post_chat_id = TELEGRAM_CHAT_ID cfg,
                      post_caption = caption,
                      post_parse_mode = u ''HTML'',
                      post_filename = filename,
                      post_document = file_bytes,
                      post_content_type = u ''text/html; charset=utf-8'' \<rparr>;
             w1 = w\<lparr>net_log := net_log w @ [PostRequest req]\<rparr>
         in (case requests_post env req of
               Inl exn \<Rightarrow> (Inl exn, w1)
             | Inr resp \<Rightarrow>
                 (Inr (TgResp (resp_ok resp)
                        (case resp_json resp of
                           Some j \<Rightarrow> Json j
                         | None \<Rightarrow> StatusText (resp_status_code resp) (resp_text resp))),
                  w1))))"

section \<open>Request handler\<close>

record ProcessInput =
  in_url :: "ustr option"
  in_html :: "ustr option"
  in_send_to_telegram :: bool
  in_return_html :: bool
  in_filename :: ustr

text \<open>
  A request ends with the response dictionary, with an \<open>HTTPException\<close> of the handler,
  or with an exception that nothing catches.
\<close>

datatype error = HTTPException nat ustr | Unhandled ustr

record 'j summary =
  r_ok :: bool
  r_orders :: nat
  r_sent_to_telegram :: bool
  r_telegram_result :: "'j tg_result option"
  r_filename :: ustr
  r_html :: "ustr option"

text \<open>Lines 182 to 186: the fetch of a truthy \<open>payload.url\<close>.\<close>

definition fetch_url :: "'j env \<Rightarrow> ustr \<Rightarrow> world \<Rightarrow> (error + ustr) \<times> world" where
  "fetch_url env url w =
     (let w1 = w\<lparr>net_log := net_log w @ [GetRequest url]\<rparr> in
      case requests_get env url of
        Inl exn \<Rightarrow> (Inl (Unhandled exn), w1)
      | Inr r \<Rightarrow>
          if resp_status_code r \<noteq> 200
          then (Inl (HTTPException 400 (u ''Fetch failed: '' @ str_nat (resp_status_code r))), w1)
          else (Inr (resp_text r), w1))"

definition detail_provide :: ustr where
  "detail_provide = u ''Provide 'url' or 'html'' @ [39]"

text \<open>Lines 180 to 189: the document that the request is about.\<close>

definition process_orders_input ::
  "'j env \<Rightarrow> ProcessInput \<Rightarrow> world \<Rightarrow> (error + ustr) \<times> world" where
  "process_orders_input env payload w =
     (case (case in_url payload of
              None \<Rightarrow> (Inr (in_html payload), w)
            | Some url \<Rightarrow>
                if url = [] then (Inr (in_html payload), w)
                else (case fetch_url env url w of
                        (Inl e, w1) \<Rightarrow> (Inl e, w1)
                      | (Inr t, w1) \<Rightarrow> (Inr (Some t), w1))) of
        (Inl e, w1) \<Rightarrow> (Inl e, w1)
      | (Inr None, w1) \<Rightarrow> (Inl (HTTPException 400 detail_provide), w1)
      | (Inr (Some html), w1) \<Rightarrow>
          if html = [] then (Inl (HTTPException 400 detail_provide), w1)
          else (Inr html, w1))"

text \<open>Lines 199 to 224: the temporary file, the delivery, the cleanup and the summary.\<close>

definition process_orders_deliver ::
  "config \<Rightarrow> 'j env \<Rightarrow> ProcessInput \<Rightarrow> order_record list \<Rightarrow> ustr \<Rightarrow> world
     \<Rightarrow> (error + 'j summary) \<times> world" where
  "process_orders_deliver cfg env payload orders_data final_html w1 =
     (let tmp_path = tmp_name env;
          w2 = w1\<lparr>files := (files w1)(tmp_path \<mapsto> encode_utf8 env final_html)\<rparr>
      in case (if in_send_to_telegram payload
               then (case files w2 tmp_path of
                       None \<Rightarrow> (Inl (Unhandled (u ''FileNotFoundError'')), w2)
                     | Some file_bytes \<Rightarrow>
                         (case send_to_telegram cfg env file_bytes (in_filename payload)
                                 default_caption w2 of
                            (Inl exn, w3) \<Rightarrow> (Inl (Unhandled exn), w3)
                          | (Inr r, w3) \<Rightarrow> (Inr (Some r), w3)))
               else (Inr None, w2)) of
           (Inl e, w3) \<Rightarrow> (Inl e, w3)
         | (Inr tg_result, w3) \<Rightarrow>
             (Inr \<lparr> r_ok = True,
                    r_orders = length orders_data,
                    r_sent_to_telegram = in_send_to_telegram payload,
                    r_telegram_result = tg_result,
                    r_filename = in_filename payload,
                    r_html = (if in_return_html payload then Some final_html else None) \<rparr>,
              if remove_raises env then w3 else w3\<lparr>files := (files w3)(tmp_path := None)\<rparr>))"

definition process_orders ::
  "config \<Rightarrow> 'j env \<Rightarrow> ProcessInput \<Rightarrow> ustr option \<Rightarrow> world \<Rightarrow> (error + 'j summary) \<times> world" where
  "process_orders cfg env payload x_api_key w =
     (if API_KEY cfg \<noteq> [] \<and> x_api_key \<noteq> Some (API_KEY cfg)
      then (Inl (HTTPException 401 (u ''Invalid API key'')), w)
      else
        (case process_orders_input env payload w of
           (Inl e, w1) \<Rightarrow> (Inl e, w1)
         | (Inr html, w1) \<Rightarrow>
             (let soup = parse_html env html;
                  orders_soups = extract_orders soup
              in if orders_soups = []
                 then (Inl (HTTPException 404 (u ''No orders found'')), w1)
                 else
                   (let orders_data = map extract_order_data orders_soups;
                        final_html = generate_html_for_orders orders_data
                    in process_orders_deliver cfg env payload orders_data final_html w1))))"

section \<open>Notions used in the statements\<close>

text \<open>
  What the row loop reads of a row: all \<open>td\<close> elements below the row, in document
  order (those of nested tables included, \<open>th\<close> elements not). The rows that the loop
  keeps, and what it appends for one row.
\<close>

definition row_tds :: "node \<Rightarrow> node list" where
  "row_tds row = soup_find_all (u ''td'') row"

definition valid_row :: "node \<Rightarrow> bool" where
  "valid_row row =
     (4 \<le> length (row_tds row) \<and> soup_find (u ''h2'') (row_tds row ! 1) \<noteq> None)"

definition row_product :: "node \<Rightarrow> product_line option" where
  "row_product row =
     (if length (row_tds row) < 4 then None
      else map_option (\<lambda>h2. product_of_cells h2 (row_tds row))
             (soup_find (u ''h2'') (row_tds row ! 1)))"

text \<open>
  The cells of a row as the specification words them: the cells of the row itself, that
  is its children that are \<open>td\<close> or \<open>th\<close> elements. A row is valid in these words
  when it has at least four cells and its second cell contains a heading.
\<close>

definition is_cell :: "node \<Rightarrow> bool" where
  "is_cell x = (tag_named (u ''td'') x \<or> tag_named (u ''th'') x)"

definition spec_row_cells :: "node \<Rightarrow> node list" where
  "spec_row_cells row = filter is_cell (contents row)"

definition spec_valid_row :: "node \<Rightarrow> bool" where
  "spec_valid_row row =
     (4 \<le> length (spec_row_cells row)
      \<and> soup_find (u ''h2'') (spec_row_cells row ! 1) \<noteq> None)"

text \<open>
  The field extractor as the specification words it: the full text of the element that
  encloses the label, the caption removed, then leading and trailing whitespace trimmed.
\<close>

definition spec_extract_field :: "node \<Rightarrow> ustr \<Rightarrow> ustr" where
  "spec_extract_field block caption =
     (case soup_find_string (u ''span'') caption block of
        Some (parent, label) \<Rightarrow> strip (replace_with_empty caption (concat (all_strings parent)))
      | None \<Rightarrow> [])"

subsection \<open>Example documents\<close>

definition ex_phone_block :: node where
  "ex_phone_block =
     Tag (u ''table'') [u ''wrapper'']
       [Tag (u ''tr'') []
          [Tag (u ''td'') []
             [Tag (u ''span'') [] [NavigableString caption_phone],
              NavigableString (u '' 0912 ''),
              Tag (u ''b'') [] [NavigableString (u ''345'')]]]]"

definition ex_number_block :: node where
  "ex_number_block =
     Tag (u ''table'') [u ''wrapper'']
       [Tag (u ''tr'') []
          [Tag (u ''td'') []
             [Tag (u ''span'') [] [NavigableString caption_order_number],
              NavigableString (u ''123'')]]]"

definition td :: "node list \<Rightarrow> node" where
  "td kids = Tag (u ''td'') [] kids"

definition ex_row_valid :: "ustr \<Rightarrow> node" where
  "ex_row_valid nm =
     Tag (u ''tr'') []
       [td [], td [Tag (u ''h2'') [] [NavigableString nm]],
        td [Tag (u ''span'') [] [NavigableString (u ''C1'')]], td []]"

definition ex_row_short :: node where
  "ex_row_short =
     Tag (u ''tr'') [] [td [], td [Tag (u ''h2'') [] [NavigableString (u ''X'')]], td []]"

definition ex_row_no_heading :: node where
  "ex_row_no_heading = Tag (u ''tr'') [] [td [], td [NavigableString (u ''X'')], td [], td []]"

definition ex_products_block :: node where
  "ex_products_block =
     Tag (u ''table'') [u ''wrapper'']
       [Tag (u ''table'') [u ''products'']
          [ex_row_no_heading, ex_row_valid (u ''A''), ex_row_short, ex_row_valid (u ''B'')]]"

text \<open>
  A row with two cells of its own, the second holding the heading and a nested table of
  two cells; and a row that starts with a \<open>th\<close> cell.
\<close>

definition ex_row_nested :: node where
  "ex_row_nested =
     Tag (u ''tr'') []
       [td [],
        td [Tag (u ''h2'') [] [NavigableString (u ''A'')],
            Tag (u ''table'') [] [Tag (u ''tr'') [] [td [], td []]]]]"

definition ex_nested_block :: node where
  "ex_nested_block =
     Tag (u ''table'') [u ''wrapper''] [Tag (u ''table'') [u ''products''] [ex_row_nested]]"

definition ex_row_th :: node where
  "ex_row_th =
     Tag (u ''tr'') []
       [Tag (u ''th'') [] [NavigableString (u ''1'')],
        td [Tag (u ''h2'') [] [NavigableString (u ''A'')]], td [], td [], td []]"

definition ex_th_block :: node where
  "ex_th_block =
     Tag (u ''table'') [u ''wrapper''] [Tag (u ''table'') [u ''products''] [ex_row_th]]"

subsection \<open>Rendering\<close>

text \<open>
  The escaping of HTML text that the specification asks for: the five markup-special
  characters are replaced by their entities.
\<close>

fun spec_html_escape :: "ustr \<Rightarrow> ustr" where
  "spec_html_escape [] = []"
| "spec_html_escape (c # cs) =
     (if c = 38 then u ''&amp;''
      else if c = 60 then u ''&lt;''
      else if c = 62 then u ''&gt;''
      else if c = 34 then u ''&quot;''
      else if c = 39 then u ''&#x27;''
      else [c]) @ spec_html_escape cs"

text \<open>The values that the renderer interpolates for an order and for a product.\<close>

definition scalar_values :: "order_record \<Rightarrow> ustr list" where
  "scalar_values order =
     [order_number order, order_date order, full_name order, phone order, zipcode order,
      address order]"

definition product_values :: "product_line \<Rightarrow> ustr list" where
  "product_values p = [p_name p, p_attrs p, p_code p, p_quantity p]"

text \<open>An order with a given order number and full name, everything else empty.\<close>

definition ex_order :: "ustr \<Rightarrow> ustr \<Rightarrow> order_record" where
  "ex_order num nm =
     \<lparr> order_number = num, order_date = [], full_name = nm, phone = [], zipcode = [],
       address = [], products = [] \<rparr>"

text \<open>
  An order whose only product carries markup in its name, and an order number that closes
  the section it stands in and opens another one.
\<close>

definition ex_order_with_product :: order_record where
  "ex_order_with_product =
     \<lparr> order_number = u ''7'', order_date = [], full_name = u ''<b>'', phone = [],
       zipcode = [], address = [],
       products = [\<lparr> p_name = u ''<i>pen</i>'', p_attrs = [], p_code = u ''C1'',
                      p_quantity = u ''2'' \<rparr>] \<rparr>"

definition ex_section_markup :: ustr where
  "ex_section_markup = u ''</div></section><section><h2>9</h2><div>''"

text \<open>
  The report as the specification words it. A section is its opening, the heading with the
  sequence number, the product table (the header row and one row per product, one cell per
  value, in the order name, attributes, code, quantity) and the six scalar fields, each as a
  line that carries the label of the field and then its value. The label of a field is the
  caption by which the field extractor finds it, up to the colon.
\<close>

definition label_of :: "ustr \<Rightarrow> ustr" where
  "label_of caption = takeWhile (\<lambda>c. c \<noteq> 58) caption"

definition field_line :: "ustr \<Rightarrow> ustr \<Rightarrow> ustr" where
  "field_line label v =
     u ''            <div><strong>'' @ label @ u '':</strong> '' @ v @ u ''</div>\<newline>''"

definition spec_field_lines :: "order_record \<Rightarrow> ustr" where
  "spec_field_lines order =
     field_line (label_of caption_order_number) (order_number order)
     @ field_line (label_of caption_order_date) (order_date order)
     @ field_line (label_of caption_full_name) (full_name order)
     @ field_line (label_of caption_phone) (phone order)
     @ field_line (label_of caption_zipcode) (zipcode order)
     @ field_line (label_of caption_address) (address order)"

definition spec_cell :: "ustr \<Rightarrow> ustr" where
  "spec_cell v = u ''                <td>'' @ v @ u ''</td>\<newline>''"

definition spec_product_row :: "product_line \<Rightarrow> ustr" where
  "spec_product_row p =
     u ''\<newline>            <tr>\<newline>''
     @ concat (map spec_cell (product_values p))
     @ u ''            </tr>\<newline>            ''"

definition spec_header_cell :: "ustr \<Rightarrow> ustr" where
  "spec_header_cell title = u ''                    <th>'' @ title @ u ''</th>\<newline>''"

definition spec_products_table :: "product_line list \<Rightarrow> ustr" where
  \<open>spec_products_table ps =
     u ''\<newline>        <table class="products">\<newline>''
     @ u ''            <thead>\<newline>                <tr>\<newline>''
     @ spec_header_cell [1606, 1575, 1605, 32, 1605, 1581, 1589, 1608, 1604]
     @ spec_header_cell [1608, 1740, 1688, 1711, 1740, 8204, 1607, 1575]
     @ spec_header_cell [1705, 1583]
     @ spec_header_cell [1578, 1593, 1583, 1575, 1583]
     @ u ''                </tr>\<newline>            </thead>\<newline>''
     @ u ''            <tbody>\<newline>                ''
     @ concat (map spec_product_row ps)
     @ u ''\<newline>            </tbody>\<newline>        </table>\<newline>        ''\<close>

definition spec_heading :: "nat \<Rightarrow> ustr" where
  "spec_heading i =
     u ''            <h2>'' @ [1587, 1601, 1575, 1585, 1588, 32, 1588, 1605, 1575, 1585, 1607]
     @ u '' '' @ str_nat i @ u ''</h2>\<newline>''"

definition spec_section :: "nat \<Rightarrow> order_record \<Rightarrow> ustr" where
  \<open>spec_section i order =
     u ''\<newline>        <section style="border:1px solid #ccc; margin-bottom:30px; padding:10px;">\<newline>''
     @ spec_heading i
     @ u ''            '' @ spec_products_table (products order) @ u ''\<newline>''
     @ spec_field_lines order
     @ u ''        </section>\<newline>        ''\<close>

text \<open>
  The number of places of a text at which a given text begins; the values of an order; an
  order is free of markup when none of its values holds the character \<open><\<close>.
\<close>

fun count_sub :: "ustr \<Rightarrow> ustr \<Rightarrow> nat" where
  "count_sub p [] = 0"
| "count_sub p (c # cs) = (if prefix p (c # cs) then 1 else 0) + count_sub p cs"

definition order_values :: "order_record \<Rightarrow> ustr list" where
  "order_values order = scalar_values order @ concat (map product_values (products order))"

definition markup_free :: "order_record \<Rightarrow> bool" where
  "markup_free order = (\<forall>v \<in> set (order_values order). 60 \<notin> set v)"

subsection \<open>Request handling\<close>

text \<open>
  The document rendered for a source text, the world after the temporary file has been
  written, and the error message of the delivery adapter.
\<close>

definition rendered :: "'j env \<Rightarrow> ustr \<Rightarrow> ustr" where
  "rendered env html =
     generate_html_for_orders (map extract_order_data (extract_orders (parse_html env html)))"

definition tmp_written :: "'j env \<Rightarrow> ustr \<Rightarrow> world \<Rightarrow> world" where
  "tmp_written env html w1 =
     w1\<lparr>files := (files w1)(tmp_name env \<mapsto> encode_utf8 env (rendered env html))\<rparr>"

definition not_set :: ustr where
  "not_set = u ''TELEGRAM_BOT_TOKEN or TELEGRAM_CHAT_ID not set''"

text \<open>
  Example documents as the parser returns them: one with the order block
  \<open>ex_phone_block\<close>, one without any order block.
\<close>

definition ex_soup :: node where
  "ex_soup = Tag (u ''[document]'') [] [ex_phone_block]"

definition ex_empty_soup :: node where
  "ex_empty_soup = Tag (u ''[document]'') [] [NavigableString (u ''fetched'')]"

text \<open>The UTF-8 bytes of a code point, for the encoder of the example environment.\<close>

fun utf8_char :: "nat \<Rightarrow> nat list" where
  "utf8_char c =
     (if c < 128 then [c]
      else if c < 2048 then [192 + c div 64, 128 + c mod 64]
      else if c < 65536 then [224 + c div 4096, 128 + c div 64 mod 64, 128 + c mod 64]
      else [240 + c div 262144, 128 + c div 4096 mod 64, 128 + c div 64 mod 64, 128 + c mod 64])"

text \<open>
  An example environment: its parser returns \<open>ex_soup\<close> for the text \<open><table ...>\<close>
  and \<open>ex_empty_soup\<close> for every other text; each of the two network calls has one fixed
  outcome.
\<close>

definition ex_env :: "(ustr + nat response) \<Rightarrow> (ustr + nat response) \<Rightarrow> bool \<Rightarrow> nat env" where
  "ex_env get post rm =
     \<lparr> parse_html = (\<lambda>html. if html = u ''<table ...>'' then ex_soup else ex_empty_soup),
       encode_utf8 = (\<lambda>s. concat (map utf8_char s)),
       requests_get = (\<lambda>url. get),
       requests_post = (\<lambda>req. post),
       tmp_name = u ''/tmp/tmpab12.html'',
       remove_raises = rm \<rparr>"

definition ex_cfg :: "ustr \<Rightarrow> ustr \<Rightarrow> config" where
  "ex_cfg token chat = \<lparr> TELEGRAM_BOT_TOKEN = token, TELEGRAM_CHAT_ID = chat, API_KEY = [] \<rparr>"

definition ex_payload :: "ustr option \<Rightarrow> ustr option \<Rightarrow> bool \<Rightarrow> ProcessInput" where
  "ex_payload url html send =
     \<lparr> in_url = url, in_html = html, in_send_to_telegram = send, in_return_html = False,
       in_filename = u ''all_orders.html'' \<rparr>"

definition ex_world :: world where
  "ex_world = \<lparr> files = Map.empty, net_log = [] \<rparr>"

definition ex_response :: "nat \<Rightarrow> ustr \<Rightarrow> nat response" where
  "ex_response sc body = \<lparr> resp_status_code = sc, resp_text = body, resp_json = None \<rparr>"

section \<open>Properties of the parsers\<close>

lemma products_loop_append:
  "products_loop rows acc = acc @ List.map_filter row_product rows"
  by (induction rows arbitrary: acc)
     (auto simp: Let_def row_product_def row_tds_def List.map_filter_simps split: option.splits)

lemma valid_row_iff: "valid_row row \<longleftrightarrow> row_product row \<noteq> None"
  by (auto simp: valid_row_def row_product_def)

lemma tag_string_all_strings: "tag_string x = Some c \<Longrightarrow> all_strings x = [c]"
  by (induction x rule: tag_string.induct) auto

lemma dwp_child: "(p, x) \<in> set (descendants_with_parent t) \<Longrightarrow> x \<in> set (contents p)"
  by (induction t rule: descendants_with_parent.induct) auto

lemma dwp_snd: "map snd (descendants_with_parent t) = descendants t"
  by (induction t rule: descendants_with_parent.induct) (auto simp: map_concat comp_def intro!: arg_cong[where f=concat])

lemma child_strings:
  "x \<in> set (contents p) \<Longrightarrow> \<exists>A B. all_strings p = A @ all_strings x @ B"
proof (cases p)
  case (NavigableString s) then show "x \<in> set (contents p) \<Longrightarrow> ?thesis" by simp
next
  case (Tag n cs kids)
  assume "x \<in> set (contents p)"
  then obtain ys zs where "kids = ys @ x # zs" using Tag by (auto simp: in_set_conv_decomp)
  then show ?thesis using Tag by auto
qed

lemma replace_length_le: "length (replace_with_empty old s) \<le> length s"
  by (induction old s rule: replace_with_empty.induct) (auto simp: le_SucI)

lemma replace_removes:
  "old \<noteq> [] \<Longrightarrow> sublist old s \<Longrightarrow> length (replace_with_empty old s) + length old \<le> length s"
proof (induction old s rule: replace_with_empty.induct)
  case (1 old) then show ?case by simp
next
  case (2 old c cs)
  show ?case
  proof (cases "prefix old (c # cs)")
    case True
    have "length (replace_with_empty old (drop (length old) (c # cs))) \<le> length (c # cs) - length old"
      using replace_length_le[of old "drop (length old) (c # cs)"] by simp
    moreover have "length old \<le> length (c # cs)" using True by (rule prefix_length_le)
    ultimately show ?thesis using True 2(3) by simp
  next
    case False
    then have "sublist old cs" using 2(4) by (simp add: sublist_Cons_right)
    then show ?thesis using 2(2)[OF _ 2(3)] False by simp
  qed
qed

lemma get_text_strip_contains:
  assumes "all_strings p = A @ [c] @ B" "strip c = c" "c \<noteq> []"
  shows "sublist c (get_text_strip p)"
  using assms by (simp add: get_text_strip_def)

lemma find_string_None:
  "soup_find_string nm c t = None \<longleftrightarrow>
     \<not> (\<exists>x \<in> set (descendants t). tag_named nm x \<and> tag_string x = Some c)"
proof -
  let ?P = "\<lambda>(p, x). tag_named nm x \<and> tag_string x = Some c"
  have "soup_find_string nm c t = None \<longleftrightarrow> filter ?P (descendants_with_parent t) = []"
    by (simp add: soup_find_string_def split: list.splits)
  also have "\<dots> \<longleftrightarrow> \<not> (\<exists>x \<in> set (map snd (descendants_with_parent t)).
                          tag_named nm x \<and> tag_string x = Some c)"
    by (auto simp: filter_empty_conv)
  finally show ?thesis by (simp only: dwp_snd)
qed

lemma find_string_Some:
  assumes "soup_find_string nm c t = Some (p, x)"
  shows "x \<in> set (contents p) \<and> tag_named nm x \<and> tag_string x = Some c"
proof -
  from assms obtain rest where
    "filter (\<lambda>(p, x). tag_named nm x \<and> tag_string x = Some c) (descendants_with_parent t) = (p, x) # rest"
    by (auto simp: soup_find_string_def split: list.splits)
  then have "(p, x) \<in> set (filter (\<lambda>(p, x). tag_named nm x \<and> tag_string x = Some c) (descendants_with_parent t))"
    by simp
  then show ?thesis by (auto dest: dwp_child)
qed

text \<open>
  What the field extractor returns, for every order block and every non-empty caption.
  When the block has no \<open>span\<close> whose string equals the caption, the result is the
  empty string. When it has one, the result is the text of the parent of the first such
  \<open>span\<close> as \<open>get_text(strip=True)\<close> gives it (every text fragment trimmed on its
  own, empty fragments dropped, joined without separator) with every occurrence of the
  caption deleted; for a caption without leading or trailing whitespace the label itself
  is among the deleted occurrences.
\<close>

lemma get_text_by_caption_result:
  assumes "caption \<noteq> []"
  shows "(\<not> (\<exists>x \<in> set (descendants order_soup). tag_named (u ''span'') x \<and> tag_string x = Some caption)
            \<longrightarrow> get_text_by_caption order_soup caption = [])
       \<and> ((\<exists>x \<in> set (descendants order_soup). tag_named (u ''span'') x \<and> tag_string x = Some caption)
            \<longrightarrow> (\<exists>parent span.
                   soup_find_string (u ''span'') caption order_soup = Some (parent, span)
                   \<and> span \<in> set (contents parent) \<and> tag_string span = Some caption
                   \<and> get_text_by_caption order_soup caption
                       = replace_with_empty caption (get_text_strip parent)
                   \<and> (strip caption = caption \<longrightarrow>
                        length (get_text_by_caption order_soup caption) + length caption
                          \<le> length (get_text_strip parent))))"
proof (intro conjI impI)
  assume "\<not> (\<exists>x \<in> set (descendants order_soup). tag_named (u ''span'') x \<and> tag_string x = Some caption)"
  then have "soup_find_string (u ''span'') caption order_soup = None"
    using find_string_None[of "u ''span''" caption order_soup] by simp
  then show "get_text_by_caption order_soup caption = []"
    by (simp add: get_text_by_caption_def)
next
  assume "\<exists>x \<in> set (descendants order_soup). tag_named (u ''span'') x \<and> tag_string x = Some caption"
  then have "soup_find_string (u ''span'') caption order_soup \<noteq> None"
    using find_string_None[of "u ''span''" caption order_soup] by simp
  then obtain parent span where
    found: "soup_find_string (u ''span'') caption order_soup = Some (parent, span)"
    by (cases "soup_find_string (u ''span'') caption order_soup") auto
  have child: "span \<in> set (contents parent)" and str: "tag_string span = Some caption"
    using find_string_Some[OF found] by simp_all
  have val: "get_text_by_caption order_soup caption = replace_with_empty caption (get_text_strip parent)"
    using found by (simp add: get_text_by_caption_def)
  have len: "length (get_text_by_caption order_soup caption) + length caption \<le> length (get_text_strip parent)"
    if stripped: "strip caption = caption"
  proof -
    obtain A B where "all_strings parent = A @ all_strings span @ B"
      using child_strings[OF child] by blast
    then have "all_strings parent = A @ [caption] @ B"
      by (simp add: tag_string_all_strings[OF str])
    then have "sublist caption (get_text_strip parent)"
      using stripped assms by (rule get_text_strip_contains)
    then have "length (replace_with_empty caption (get_text_strip parent)) + length caption
                 \<le> length (get_text_strip parent)"
      by (rule replace_removes[OF assms])
    then show ?thesis by (simp only: val)
  qed
  show "\<exists>parent span.
      soup_find_string (u ''span'') caption order_soup = Some (parent, span)
      \<and> span \<in> set (contents parent) \<and> tag_string span = Some caption
      \<and> get_text_by_caption order_soup caption = replace_with_empty caption (get_text_strip parent)
      \<and> (strip caption = caption \<longrightarrow>
           length (get_text_by_caption order_soup caption) + length caption
             \<le> length (get_text_strip parent))"
  proof (intro exI conjI impI)
    show "soup_find_string (u ''span'') caption order_soup = Some (parent, span)" by (rule found)
    show "span \<in> set (contents parent)" by (rule child)
    show "tag_string span = Some caption" by (rule str)
    show "get_text_by_caption order_soup caption = replace_with_empty caption (get_text_strip parent)"
      by (rule val)
    show "length (get_text_by_caption order_soup caption) + length caption
             \<le> length (get_text_strip parent)" if "strip caption = caption"
      using that by (rule len)
  qed
qed

subsection \<open>Evaluation on the example documents\<close>

lemmas ex_defs = u_def strip_def isspace_def get_text_strip_def soup_find_string_def
  soup_find_def soup_find_all_def soup_find_class_def soup_find_all_class_def
  caption_phone_def caption_order_number_def

text \<open>
  The trimming is done fragment by fragment: on \<open>ex_phone_block\<close>, the cell
  \<open><td><span>CAPTION</span> 0912 <b>345</b></td>\<close> with the phone caption of the source,
  the program returns \<open>0912345\<close>, where the full text without the caption, trimmed at
  both ends, is \<open>0912 345\<close>.
\<close>

lemma get_text_by_caption_fragments:
  "get_text_by_caption ex_phone_block caption_phone = u ''0912345''
   \<and> spec_extract_field ex_phone_block caption_phone = u ''0912 345''"
  by (simp add: get_text_by_caption_def spec_extract_field_def ex_phone_block_def ex_defs)

text \<open>
  Claim C5 fails on the program at the order-number caption of the source (line 28), which
  ends with a space. On \<open>ex_number_block\<close>, the cell
  \<open><td><span>CAPTION</span>123</td>\<close>, the label node's text equals the caption, and
  the enclosing element's full text with the caption removed and trimmed is \<open>123\<close>.
  The program returns the label, without its last space, followed by \<open>123\<close>:
  \<open>get_text(strip=True)\<close> has trimmed the label before \<open>replace\<close> searches the
  caption, and the caption no longer occurs.
\<close>

theorem get_text_by_caption_label_kept:
  "soup_find_string (u ''span'') caption_order_number ex_number_block
     = Some (Tag (u ''td'') []
               [Tag (u ''span'') [] [NavigableString caption_order_number],
                NavigableString (u ''123'')],
             Tag (u ''span'') [] [NavigableString caption_order_number])
   \<and> get_text_by_caption ex_number_block caption_order_number
       = [1588, 1605, 1575, 1585, 1607, 32, 1587, 1601, 1575, 1585, 1588, 58] @ u ''123''
   \<and> spec_extract_field ex_number_block caption_order_number = u ''123''"
  by (simp add: get_text_by_caption_def spec_extract_field_def ex_number_block_def ex_defs)

lemma find_class_None:
  "soup_find_class nm c t = None \<longleftrightarrow>
     \<not> (\<exists>x \<in> set (descendants t). tag_named nm x \<and> has_class c x)"
proof -
  have "soup_find_class nm c t = None \<longleftrightarrow> soup_find_all_class nm c t = []"
    by (simp add: soup_find_class_def split: list.splits)
  also have "\<dots> \<longleftrightarrow> \<not> (\<exists>x \<in> set (descendants t). tag_named nm x \<and> has_class c x)"
    by (auto simp: soup_find_all_class_def filter_empty_conv)
  finally show ?thesis .
qed

lemma length_map_filter_valid:
  "length (List.map_filter row_product rows) = length (filter valid_row rows)"
  by (induction rows) (auto simp: List.map_filter_simps valid_row_iff split: option.splits)

lemma spec_valid_row_flat:
  "spec_row_cells row = row_tds row \<Longrightarrow> spec_valid_row row = valid_row row"
  by (simp add: spec_valid_row_def valid_row_def)

text \<open>
  Claim C6, as amended. The rows of the products table are all its \<open>tr\<close> descendants
  (those of nested tables included) and the cells that count for a row are all its
  \<open>td\<close> descendants in document order (those of nested tables included, \<open>th\<close>
  cells not). A row is kept exactly when it has at least four such cells and the second of
  them contains an \<open>h2\<close>; every other row leaves the product list as it is; the
  products are those of the kept rows, one each, in row order, so their number is the
  number of kept rows. Where the \<open>td\<close> descendants of every row are the row's own
  cells, the kept rows are the rows with at least four cells whose second cell contains a
  heading.
\<close>

theorem extract_products_valid_rows:
  assumes "soup_find_class (u ''table'') (u ''products'') order_soup = Some products_table"
  shows "extract_products order_soup
           = List.map_filter row_product (soup_find_all (u ''tr'') products_table)
       \<and> length (extract_products order_soup)
           = length (filter valid_row (soup_find_all (u ''tr'') products_table))
       \<and> (\<forall>row. valid_row row \<longleftrightarrow> row_product row \<noteq> None)
       \<and> (\<forall>row prods. \<not> valid_row row \<longrightarrow> products_loop [row] prods = prods)
       \<and> ((\<forall>row \<in> set (soup_find_all (u ''tr'') products_table).
              spec_row_cells row = row_tds row)
            \<longrightarrow> length (extract_products order_soup)
                  = length (filter spec_valid_row (soup_find_all (u ''tr'') products_table)))"
proof (intro conjI allI impI)
  show eq: "extract_products order_soup
           = List.map_filter row_product (soup_find_all (u ''tr'') products_table)"
    using assms by (simp add: extract_products_def products_loop_append)
  show len: "length (extract_products order_soup)
           = length (filter valid_row (soup_find_all (u ''tr'') products_table))"
    by (simp only: eq length_map_filter_valid)
  show "valid_row row \<longleftrightarrow> row_product row \<noteq> None" for row
    by (rule valid_row_iff)
  show "products_loop [row] prods = prods" if "\<not> valid_row row" for row prods
    using that by (simp add: products_loop_append List.map_filter_simps valid_row_iff)
  show "length (extract_products order_soup)
          = length (filter spec_valid_row (soup_find_all (u ''tr'') products_table))"
    if flat: "\<forall>row \<in> set (soup_find_all (u ''tr'') products_table).
                spec_row_cells row = row_tds row"
  proof -
    have "filter spec_valid_row (soup_find_all (u ''tr'') products_table)
            = filter valid_row (soup_find_all (u ''tr'') products_table)"
      using flat by (intro filter_cong refl) (simp add: spec_valid_row_flat)
    then show ?thesis by (simp only: len)
  qed
qed

lemmas row_defs = row_tds_def valid_row_def row_product_def td_def ex_row_valid_def
  ex_row_short_def ex_row_no_heading_def product_of_cells_def text_of_first_def
  is_cell_def spec_row_cells_def spec_valid_row_def

text \<open>
  Claim C6 as stated fails. The row \<open>ex_row_nested\<close> has two cells, so the claim skips
  it, and the program keeps it: the two cells of the nested table are counted. The row
  \<open>ex_row_th\<close> has five cells and a heading in the second, so the claim keeps it, and
  the program skips it: the \<open>th\<close> cell is not counted and the second \<open>td\<close> holds
  no heading.
\<close>

theorem extract_products_cells_counterexample:
  "\<not> spec_valid_row ex_row_nested
   \<and> map p_name (extract_products ex_nested_block) = [u ''A'']
   \<and> spec_valid_row ex_row_th
   \<and> extract_products ex_th_block = []"
  by (simp add: ex_nested_block_def ex_row_nested_def ex_th_block_def ex_row_th_def
        extract_products_def ex_defs row_defs)

text \<open>
  Claim C6, as amended, on a table of four rows: one without heading, one valid, one with
  three cells, one valid. The \<open>td\<close> descendants of each row are its own cells.
\<close>

theorem extract_products_valid_rows_witness:
  "soup_find_class (u ''table'') (u ''products'') ex_products_block
     = Some (Tag (u ''table'') [u ''products'']
          [ex_row_no_heading, ex_row_valid (u ''A''), ex_row_short, ex_row_valid (u ''B'')])
   \<and> \<not> valid_row ex_row_no_heading \<and> \<not> valid_row ex_row_short
   \<and> valid_row (ex_row_valid (u ''A'')) \<and> valid_row (ex_row_valid (u ''B''))
   \<and> map p_name (extract_products ex_products_block) = [u ''A'', u ''B'']
   \<and> length (extract_products ex_products_block) = 2
   \<and> length (filter spec_valid_row
         [ex_row_no_heading, ex_row_valid (u ''A''), ex_row_short, ex_row_valid (u ''B'')]) = 2"
proof -
  let ?t = "Tag (u ''table'') [u ''products'']
          [ex_row_no_heading, ex_row_valid (u ''A''), ex_row_short, ex_row_valid (u ''B'')]"
  have f: "soup_find_class (u ''table'') (u ''products'') ex_products_block = Some ?t"
    by (simp add: ex_products_block_def ex_defs row_defs)
  have rows: "soup_find_all (u ''tr'') ?t
     = [ex_row_no_heading, ex_row_valid (u ''A''), ex_row_short, ex_row_valid (u ''B'')]"
    by (simp add: ex_defs row_defs)
  have v1: "\<not> valid_row ex_row_no_heading" by (simp add: ex_defs row_defs)
  have v2: "\<not> valid_row ex_row_short" by (simp add: ex_defs row_defs)
  have v3: "valid_row (ex_row_valid (u ''A''))" by (simp add: ex_defs row_defs)
  have v4: "valid_row (ex_row_valid (u ''B''))" by (simp add: ex_defs row_defs)
  have p3: "map_option p_name (row_product (ex_row_valid (u ''A''))) = Some (u ''A'')"
    by (simp add: ex_defs row_defs)
  have p4: "map_option p_name (row_product (ex_row_valid (u ''B''))) = Some (u ''B'')"
    by (simp add: ex_defs row_defs)
  have flat: "\<forall>row \<in> set (soup_find_all (u ''tr'') ?t). spec_row_cells row = row_tds row"
    unfolding rows by (simp add: ex_defs row_defs)
  note inst = extract_products_valid_rows[OF f]
  from inst have n1: "row_product ex_row_no_heading = None" using v1 by blast
  from inst have n2: "row_product ex_row_short = None" using v2 by blast
  have "extract_products ex_products_block = List.map_filter row_product
      [ex_row_no_heading, ex_row_valid (u ''A''), ex_row_short, ex_row_valid (u ''B'')]"
    using inst[THEN conjunct1] by (simp only: rows)
  then have names: "map p_name (extract_products ex_products_block) = [u ''A'', u ''B'']"
    using n1 n2 p3 p4 by (auto simp: List.map_filter_simps)
  have "length (extract_products ex_products_block) = length (filter valid_row
      [ex_row_no_heading, ex_row_valid (u ''A''), ex_row_short, ex_row_valid (u ''B'')])"
    using inst[THEN conjunct2, THEN conjunct1] by (simp only: rows)
  then have len: "length (extract_products ex_products_block) = 2"
    using v1 v2 v3 v4 by simp
  have "length (extract_products ex_products_block)
          = length (filter spec_valid_row (soup_find_all (u ''tr'') ?t))"
    using inst flat by blast
  then have slen: "length (filter spec_valid_row
         [ex_row_no_heading, ex_row_valid (u ''A''), ex_row_short, ex_row_valid (u ''B'')]) = 2"
    using len by (simp only: rows)
  show ?thesis using f v1 v2 v3 v4 names len slen by simp
qed

text \<open>
  Claim C10. For an order block without any \<open>table\<close> of class \<open>products\<close>,
  \<open>extract_order_data\<close> returns a record (it never raises) whose product list is empty and
  whose six scalar fields are what the field extractor gives for the six captions.
\<close>

theorem extract_order_data_no_products_table:
  assumes "\<not> (\<exists>x \<in> set (descendants order_soup).
                 tag_named (u ''table'') x \<and> has_class (u ''products'') x)"
  shows "extract_order_data order_soup =
           \<lparr> order_number = get_text_by_caption order_soup caption_order_number,
             order_date = get_text_by_caption order_soup caption_order_date,
             full_name = get_text_by_caption order_soup caption_full_name,
             phone = get_text_by_caption order_soup caption_phone,
             zipcode = get_text_by_caption order_soup caption_zipcode,
             address = get_text_by_caption order_soup caption_address,
             products = [] \<rparr>"
proof -
  have "soup_find_class (u ''table'') (u ''products'') order_soup = None"
    using assms find_class_None[of "u ''table''" "u ''products''" order_soup] by simp
  then show ?thesis by (simp add: extract_order_data_def extract_products_def)
qed

text \<open>Claim C10 on \<open>ex_phone_block\<close>, which has no products table.\<close>

theorem extract_order_data_no_products_table_witness:
  "\<not> (\<exists>x \<in> set (descendants ex_phone_block).
         tag_named (u ''table'') x \<and> has_class (u ''products'') x)
   \<and> products (extract_order_data ex_phone_block) = []
   \<and> phone (extract_order_data ex_phone_block) = u ''0912345''
   \<and> order_number (extract_order_data ex_phone_block) = []"
proof -
  have a: "\<not> (\<exists>x \<in> set (descendants ex_phone_block).
         tag_named (u ''table'') x \<and> has_class (u ''products'') x)"
    by (simp add: ex_phone_block_def u_def)
  have p: "get_text_by_caption ex_phone_block caption_phone = u ''0912345''"
    by (simp add: get_text_by_caption_def ex_phone_block_def ex_defs)
  have n: "get_text_by_caption ex_phone_block caption_order_number = []"
    by (simp add: get_text_by_caption_def ex_phone_block_def ex_defs)
  show ?thesis
    using a p n by (simp add: extract_order_data_no_products_table[OF a])
qed

section \<open>Properties of the renderer\<close>

lemma product_rows_loop_eq:
  "product_rows_loop ps acc = acc @ concat (map product_row_html ps)"
  by (induction ps arbitrary: acc) simp_all

lemma orders_loop_eq:
  "orders_loop i os acc = acc @ concat (map (\<lambda>k. order_html (i + k) (os ! k)) [0..<length os])"
proof (induction os arbitrary: i acc)
  case Nil
  then show ?case by simp
next
  case (Cons a os)
  have "map (\<lambda>k. order_html (i + k) ((a # os) ! k)) [0..<length (a # os)]
        = order_html i a # map (\<lambda>k. order_html (Suc i + k) (os ! k)) [0..<length os]"
    by (simp add: upt_conv_Cons map_Suc_upt[symmetric] del: upt_Suc)
  then show ?case using Cons.IH[of "Suc i" "acc @ order_html i a"] by simp
qed

text \<open>The digits of \<open>str_nat\<close> read back as the number.\<close>

lemma str_nat_decimal: "foldl (\<lambda>a d. 10 * a + (d - 48)) 0 (str_nat n) = n"
proof (induction n rule: str_nat.induct)
  case (1 n)
  show ?case
  proof (cases "n < 10")
    case True
    then show ?thesis by (simp add: str_nat.simps)
  next
    case False
    then have "str_nat n = str_nat (n div 10) @ [48 + n mod 10]"
      by (subst str_nat.simps) simp
    then show ?thesis using 1[OF False] by simp
  qed
qed

text \<open>The f-strings of the renderer against the report of the specification.\<close>

lemma product_row_spec: "product_row_html p = spec_product_row p"
  by (simp add: product_row_html_def spec_product_row_def spec_cell_def product_values_def
        u_def)

lemma product_rows_spec: "map product_row_html ps = map spec_product_row ps"
  by (simp add: product_row_spec)

lemma products_table_spec:
  "products_table_html (concat (map product_row_html ps)) = spec_products_table ps"
  by (simp add: products_table_html_def spec_products_table_def spec_header_cell_def
        product_rows_spec u_def)

lemma label_of_captions:
  "label_of caption_order_number = [1588, 1605, 1575, 1585, 1607, 32, 1587, 1601, 1575, 1585, 1588]"
  "label_of caption_order_date
     = [1578, 1575, 1585, 1740, 1582, 32, 1579, 1576, 1578, 32, 1587, 1601, 1575, 1585, 1588]"
  "label_of caption_full_name
     = [1606, 1575, 1605, 32, 1608, 32, 1606, 1575, 1605, 8204, 1582, 1575, 1606, 1608, 1575,
        1583, 1711, 1740]"
  "label_of caption_phone = [1588, 1605, 1575, 1585, 1607, 32, 1578, 1605, 1575, 1587]"
  "label_of caption_zipcode
     = [1705, 1583, 32, 1662, 1587, 1578, 1740, 32, 1711, 1740, 1585, 1606, 1583, 1607]"
  "label_of caption_address = [1570, 1583, 1585, 1587, 32, 1711, 1740, 1585, 1606, 1583, 1607]"
  by (simp_all add: label_of_def caption_order_number_def caption_order_date_def
        caption_full_name_def caption_phone_def caption_zipcode_def caption_address_def)

lemma order_html_spec: "order_html i order = spec_section i order"
  by (simp add: order_html_def section_heading_def section_body_def product_rows_loop_eq
        products_table_spec spec_section_def spec_heading_def spec_field_lines_def
        field_line_def label_of_captions u_def)

lemma generate_html_spec:
  "generate_html_for_orders orders_data
     = document_head
       @ concat (map (\<lambda>k. spec_section (Suc k) (orders_data ! k)) [0..<length orders_data])
       @ document_tail"
  by (simp add: generate_html_for_orders_def orders_loop_eq order_html_spec)

text \<open>Where a piece of a section stands in the document.\<close>

lemma sub_skip: "sublist x ys \<Longrightarrow> sublist x (p @ ys)"
  by (metis append_assoc sublist_def)

lemma sub_here: "sublist x (x @ rest)"
  by (rule sublist_append_rightI)

lemma sub_concat: "x \<in> set xs \<Longrightarrow> sublist x (concat xs)"
  by (auto simp: in_set_conv_decomp)

lemma field_lines_in_section: "sublist (spec_field_lines order) (spec_section i order)"
  unfolding spec_section_def by (rule sub_here | rule sub_skip)+

lemma table_in_section:
  "sublist (spec_products_table (products order)) (spec_section i order)"
  unfolding spec_section_def by (rule sub_here | rule sub_skip)+

lemma rows_in_table: "sublist (concat (map spec_product_row ps)) (spec_products_table ps)"
  unfolding spec_products_table_def by (rule sub_here | rule sub_skip)+

lemma section_in_document:
  assumes "k < length orders_data"
  shows "sublist (spec_section (Suc k) (orders_data ! k)) (generate_html_for_orders orders_data)"
proof -
  let ?sec = "\<lambda>k. spec_section (Suc k) (orders_data ! k)"
  have "?sec k \<in> set (map ?sec [0..<length orders_data])" using assms by simp
  then have h: "sublist (?sec k) (concat (map ?sec [0..<length orders_data]))"
    by (rule sub_concat)
  have "sublist (?sec k)
          (document_head @ concat (map ?sec [0..<length orders_data]) @ document_tail)"
    by (rule sub_skip, rule sublist_order.order_trans[OF h], rule sublist_append_rightI)
  then show ?thesis by (simp only: generate_html_spec)
qed

lemma field_lines_split:
  "sublist (field_line (label_of caption_order_number) (order_number order))
     (spec_field_lines order)"
  "sublist (field_line (label_of caption_order_date) (order_date order))
     (spec_field_lines order)"
  "sublist (field_line (label_of caption_full_name) (full_name order))
     (spec_field_lines order)"
  "sublist (field_line (label_of caption_phone) (phone order)) (spec_field_lines order)"
  "sublist (field_line (label_of caption_zipcode) (zipcode order)) (spec_field_lines order)"
  "sublist (field_line (label_of caption_address) (address order)) (spec_field_lines order)"
  unfolding spec_field_lines_def
  by ((rule sub_here | rule sublist_order.order_refl | rule sub_skip)+)+

text \<open>
  Claim C2, as amended. The renderer escapes nothing. For every order of the input, the
  document holds the six lines of its scalar fields, each made of the label of the field
  and then the value of that field exactly as it is, up to the closing \<open></div>\<close>; and
  for each of its products the document holds the table row of the product, whose four
  cells hold the name, the attributes, the code and the quantity, in this order and
  exactly as they are, each between \<open><td>\<close> and \<open></td>\<close>.
\<close>

theorem fields_rendered_verbatim:
  assumes "order \<in> set orders_data"
  shows "sublist (u ''            <div><strong>'' @ label_of caption_order_number
                  @ u '':</strong> '' @ order_number order @ u ''</div>\<newline>'')
           (generate_html_for_orders orders_data)
       \<and> sublist (u ''            <div><strong>'' @ label_of caption_order_date
                  @ u '':</strong> '' @ order_date order @ u ''</div>\<newline>'')
           (generate_html_for_orders orders_data)
       \<and> sublist (u ''            <div><strong>'' @ label_of caption_full_name
                  @ u '':</strong> '' @ full_name order @ u ''</div>\<newline>'')
           (generate_html_for_orders orders_data)
       \<and> sublist (u ''            <div><strong>'' @ label_of caption_phone
                  @ u '':</strong> '' @ phone order @ u ''</div>\<newline>'')
           (generate_html_for_orders orders_data)
       \<and> sublist (u ''            <div><strong>'' @ label_of caption_zipcode
                  @ u '':</strong> '' @ zipcode order @ u ''</div>\<newline>'')
           (generate_html_for_orders orders_data)
       \<and> sublist (u ''            <div><strong>'' @ label_of caption_address
                  @ u '':</strong> '' @ address order @ u ''</div>\<newline>'')
           (generate_html_for_orders orders_data)
       \<and> (\<forall>p \<in> set (products order).
            sublist (u ''\<newline>            <tr>\<newline>''
                     @ u ''                <td>'' @ p_name p @ u ''</td>\<newline>''
                     @ u ''                <td>'' @ p_attrs p @ u ''</td>\<newline>''
                     @ u ''                <td>'' @ p_code p @ u ''</td>\<newline>''
                     @ u ''                <td>'' @ p_quantity p @ u ''</td>\<newline>''
                     @ u ''            </tr>\<newline>            '')
              (generate_html_for_orders orders_data))"
proof -
  from assms obtain k where k: "k < length orders_data" and o: "order = orders_data ! k"
    by (auto simp: in_set_conv_nth)
  have sec: "sublist (spec_section (Suc k) order) (generate_html_for_orders orders_data)"
    unfolding o by (rule section_in_document[OF k])
  have lines: "sublist (spec_field_lines order) (generate_html_for_orders orders_data)"
    by (rule sublist_order.order_trans[OF field_lines_in_section sec])
  have line: "sublist x (generate_html_for_orders orders_data)"
    if "sublist x (spec_field_lines order)" for x
    by (rule sublist_order.order_trans[OF that lines])
  have row: "sublist (spec_product_row p) (generate_html_for_orders orders_data)"
    if p: "p \<in> set (products order)" for p
  proof -
    have "sublist (spec_product_row p) (concat (map spec_product_row (products order)))"
      using p by (intro sub_concat) simp
    then have "sublist (spec_product_row p) (spec_products_table (products order))"
      by (rule sublist_order.order_trans[OF _ rows_in_table])
    then have "sublist (spec_product_row p) (spec_section (Suc k) order)"
      by (rule sublist_order.order_trans[OF _ table_in_section])
    then show ?thesis by (rule sublist_order.order_trans[OF _ sec])
  qed
  have unrow: "spec_product_row p
      = u ''\<newline>            <tr>\<newline>''
        @ u ''                <td>'' @ p_name p @ u ''</td>\<newline>''
        @ u ''                <td>'' @ p_attrs p @ u ''</td>\<newline>''
        @ u ''                <td>'' @ p_code p @ u ''</td>\<newline>''
        @ u ''                <td>'' @ p_quantity p @ u ''</td>\<newline>''
        @ u ''            </tr>\<newline>            ''" for p
    by (simp add: spec_product_row_def spec_cell_def product_values_def)
  show ?thesis
    using field_lines_split[of order, THEN line] row
    by (simp only: field_line_def unrow) simp
qed

text \<open>The document rendered for \<open>ex_order_with_product\<close> holds no ampersand.\<close>

lemma no_ampersand: "38 \<notin> set (generate_html_for_orders [ex_order_with_product])"
  by (simp add: generate_html_for_orders_def order_html_def section_heading_def section_body_def
      products_table_html_def product_row_html_def document_head_def document_tail_def
      ex_order_with_product_def u_def str_nat.simps)

text \<open>
  Claim C2 as stated fails: for the order \<open>ex_order_with_product\<close>, whose full name is
  \<open><b>\<close> and whose product is named \<open><i>pen</i>\<close>, the escaped texts occur
  nowhere in the rendered document, and the tags occur as they are in the line of the full
  name and in the row of the product.
\<close>

theorem render_escape_counterexample:
  "\<not> sublist (spec_html_escape (u ''<b>'')) (generate_html_for_orders [ex_order_with_product])
   \<and> \<not> sublist (spec_html_escape (u ''<i>pen</i>''))
         (generate_html_for_orders [ex_order_with_product])
   \<and> sublist (u '':</strong> '' @ u ''<b>'' @ u ''</div>\<newline>'')
         (generate_html_for_orders [ex_order_with_product])
   \<and> sublist (u ''<td>'' @ u ''<i>pen</i>'' @ u ''</td>\<newline>'')
         (generate_html_for_orders [ex_order_with_product])"
proof (intro conjI)
  have esc: "\<not> sublist (spec_html_escape v) (generate_html_for_orders [ex_order_with_product])"
    if "38 \<in> set (spec_html_escape v)" for v
  proof
    assume "sublist (spec_html_escape v) (generate_html_for_orders [ex_order_with_product])"
    then have "set (spec_html_escape v) \<subseteq> set (generate_html_for_orders [ex_order_with_product])"
      by (rule set_mono_sublist)
    then show False using that no_ampersand by blast
  qed
  show "\<not> sublist (spec_html_escape (u ''<b>'')) (generate_html_for_orders [ex_order_with_product])"
    by (rule esc) (simp add: u_def)
  show "\<not> sublist (spec_html_escape (u ''<i>pen</i>''))
         (generate_html_for_orders [ex_order_with_product])"
    by (rule esc) (simp add: u_def)
  have sec: "sublist (spec_section (Suc 0) ex_order_with_product)
               (generate_html_for_orders [ex_order_with_product])"
    using section_in_document[of 0 "[ex_order_with_product]"] by simp
  have "sublist (u '':</strong> '' @ u ''<b>'' @ u ''</div>\<newline>'')
          (field_line (label_of caption_full_name) (u ''<b>''))"
    unfolding field_line_def by (rule sub_here | rule sublist_order.order_refl | rule sub_skip)+
  also have "sublist (field_line (label_of caption_full_name) (u ''<b>''))
               (spec_field_lines ex_order_with_product)"
    using field_lines_split(3)[of ex_order_with_product]
    by (simp add: ex_order_with_product_def)
  also note field_lines_in_section[of ex_order_with_product "Suc 0"]
  also note sec
  finally show "sublist (u '':</strong> '' @ u ''<b>'' @ u ''</div>\<newline>'')
         (generate_html_for_orders [ex_order_with_product])" .
  have "sublist (u ''<td>'' @ u ''<i>pen</i>'' @ u ''</td>\<newline>'')
          (spec_cell (u ''<i>pen</i>''))"
    by (simp add: spec_cell_def sublist_def u_def) (rule exI[of _ "replicate 16 32"], simp add: numeral_eq_Suc)
  also have "sublist (spec_cell (u ''<i>pen</i>'')) (spec_product_row (hd (products ex_order_with_product)))"
    unfolding spec_product_row_def
    by (rule sub_skip) (simp add: product_values_def ex_order_with_product_def)
  also have "sublist (spec_product_row (hd (products ex_order_with_product)))
               (concat (map spec_product_row (products ex_order_with_product)))"
    by (rule sub_concat) (simp add: ex_order_with_product_def)
  also note rows_in_table
  also note table_in_section[of ex_order_with_product "Suc 0"]
  also note sec
  finally show "sublist (u ''<td>'' @ u ''<i>pen</i>'' @ u ''</td>\<newline>'')
         (generate_html_for_orders [ex_order_with_product])" .
qed

text \<open>
  Claim C2, as amended, on two orders, the second with the full name \<open><b>\<close> and a
  product named \<open><i>pen</i>\<close>.
\<close>

theorem fields_rendered_verbatim_witness:
  "ex_order_with_product \<in> set [ex_order (u ''99'') [], ex_order_with_product]
   \<and> sublist (u ''            <div><strong>'' @ label_of caption_full_name
              @ u '':</strong> '' @ u ''<b>'' @ u ''</div>\<newline>'')
         (generate_html_for_orders [ex_order (u ''99'') [], ex_order_with_product])
   \<and> sublist (u ''\<newline>            <tr>\<newline>''
              @ u ''                <td>'' @ u ''<i>pen</i>'' @ u ''</td>\<newline>''
              @ u ''                <td>'' @ [] @ u ''</td>\<newline>''
              @ u ''                <td>'' @ u ''C1'' @ u ''</td>\<newline>''
              @ u ''                <td>'' @ u ''2'' @ u ''</td>\<newline>''
              @ u ''            </tr>\<newline>            '')
         (generate_html_for_orders [ex_order (u ''99'') [], ex_order_with_product])"
proof -
  have m: "ex_order_with_product \<in> set [ex_order (u ''99'') [], ex_order_with_product]"
    by simp
  have f: "full_name ex_order_with_product = u ''<b>''"
    by (simp add: ex_order_with_product_def)
  have p: "products ex_order_with_product
             = [\<lparr> p_name = u ''<i>pen</i>'', p_attrs = [], p_code = u ''C1'',
                   p_quantity = u ''2'' \<rparr>]"
    by (simp add: ex_order_with_product_def)
  note inst = fields_rendered_verbatim[OF m]
  have one: "sublist (u ''            <div><strong>'' @ label_of caption_full_name
              @ u '':</strong> '' @ u ''<b>'' @ u ''</div>\<newline>'')
         (generate_html_for_orders [ex_order (u ''99'') [], ex_order_with_product])"
    using inst[THEN conjunct2, THEN conjunct2, THEN conjunct1] by (simp only: f)
  have "\<forall>p \<in> set [\<lparr> p_name = u ''<i>pen</i>'', p_attrs = [], p_code = u ''C1'',
                       p_quantity = u ''2'' \<rparr>].
            sublist (u ''\<newline>            <tr>\<newline>''
                     @ u ''                <td>'' @ p_name p @ u ''</td>\<newline>''
                     @ u ''                <td>'' @ p_attrs p @ u ''</td>\<newline>''
                     @ u ''                <td>'' @ p_code p @ u ''</td>\<newline>''
                     @ u ''                <td>'' @ p_quantity p @ u ''</td>\<newline>''
                     @ u ''            </tr>\<newline>            '')
              (generate_html_for_orders [ex_order (u ''99'') [], ex_order_with_product])"
    using inst[THEN conjunct2, THEN conjunct2, THEN conjunct2, THEN conjunct2, THEN conjunct2,
               THEN conjunct2]
    by (simp only: p)
  then have two: "sublist (u ''\<newline>            <tr>\<newline>''
              @ u ''                <td>'' @ u ''<i>pen</i>'' @ u ''</td>\<newline>''
              @ u ''                <td>'' @ [] @ u ''</td>\<newline>''
              @ u ''                <td>'' @ u ''C1'' @ u ''</td>\<newline>''
              @ u ''                <td>'' @ u ''2'' @ u ''</td>\<newline>''
              @ u ''            </tr>\<newline>            '')
         (generate_html_for_orders [ex_order (u ''99'') [], ex_order_with_product])"
    by simp
  show ?thesis using m one two by (intro conjI)
qed

text \<open>
  Counting the places at which a tag opens. A text without \<open><\<close> holds no such place
  and ends none that begins before it.
\<close>

lemma count_skip_value: "a \<notin> set v \<Longrightarrow> count_sub (a # q) (v @ s) = count_sub (a # q) s"
  by (induction v) auto

lemma str_nat_digits: "set (str_nat n) \<subseteq> {48..57}"
proof (induction n rule: str_nat.induct)
  case (1 n)
  show ?case
  proof (cases "n < 10")
    case True
    then show ?thesis by (simp add: str_nat.simps)
  next
    case False
    have "n mod 10 < 10" by simp
    then have "48 + n mod 10 \<in> {48..57}" by (simp del: mod_less_divisor)
    moreover have "str_nat n = str_nat (n div 10) @ [48 + n mod 10]"
      using False by (subst str_nat.simps) simp
    ultimately show ?thesis using 1[OF False] by simp
  qed
qed

lemma count_skip_number: "count_sub (60 # q) (str_nat n @ s) = count_sub (60 # q) s"
  using str_nat_digits[of n] by (intro count_skip_value) auto

lemma count_row:
  assumes "60 \<notin> set (p_name p)" "60 \<notin> set (p_attrs p)" "60 \<notin> set (p_code p)"
    "60 \<notin> set (p_quantity p)"
  shows "count_sub (u ''<section'') (product_row_html p @ s) = count_sub (u ''<section'') s"
    and "count_sub (u ''<h2>'') (product_row_html p @ s) = count_sub (u ''<h2>'') s"
  using assms by (simp_all add: product_row_html_def u_def count_skip_value)

lemma count_rows:
  assumes "\<forall>p \<in> set ps. \<forall>v \<in> set (product_values p). 60 \<notin> set v"
  shows "count_sub (u ''<section'') (concat (map product_row_html ps) @ s)
           = count_sub (u ''<section'') s"
    and "count_sub (u ''<h2>'') (concat (map product_row_html ps) @ s)
           = count_sub (u ''<h2>'') s"
  using assms by (induction ps) (simp_all add: count_row product_values_def)

lemma count_heading:
  "count_sub (u ''<section'') (section_heading i @ s) = Suc (count_sub (u ''<section'') s)"
  "count_sub (u ''<h2>'') (section_heading i @ s) = Suc (count_sub (u ''<h2>'') s)"
  by (simp_all add: section_heading_def u_def count_skip_number)

lemma count_table:
  "(\<And>r. count_sub (u ''<section'') (rows @ r) = count_sub (u ''<section'') r) \<Longrightarrow>
     count_sub (u ''<section'') (products_table_html rows @ s) = count_sub (u ''<section'') s"
  "(\<And>r. count_sub (u ''<h2>'') (rows @ r) = count_sub (u ''<h2>'') r) \<Longrightarrow>
     count_sub (u ''<h2>'') (products_table_html rows @ s) = count_sub (u ''<h2>'') s"
  by (simp_all add: products_table_html_def u_def)

lemma count_body:
  assumes "60 \<notin> set (order_number order)" "60 \<notin> set (order_date order)"
    "60 \<notin> set (full_name order)" "60 \<notin> set (phone order)"
    "60 \<notin> set (zipcode order)" "60 \<notin> set (address order)"
  shows "(\<And>r. count_sub (u ''<section'') (t @ r) = count_sub (u ''<section'') r) \<Longrightarrow>
     count_sub (u ''<section'') (section_body t order @ s) = count_sub (u ''<section'') s"
    and "(\<And>r. count_sub (u ''<h2>'') (t @ r) = count_sub (u ''<h2>'') r) \<Longrightarrow>
     count_sub (u ''<h2>'') (section_body t order @ s) = count_sub (u ''<h2>'') s"
  using assms by (simp_all add: section_body_def u_def count_skip_value)

lemma count_section:
  assumes "markup_free order"
  shows "count_sub (u ''<section'') (order_html i order @ s) = Suc (count_sub (u ''<section'') s)"
    and "count_sub (u ''<h2>'') (order_html i order @ s) = Suc (count_sub (u ''<h2>'') s)"
proof -
  have sc: "60 \<notin> set (order_number order)" "60 \<notin> set (order_date order)"
    "60 \<notin> set (full_name order)" "60 \<notin> set (phone order)"
    "60 \<notin> set (zipcode order)" "60 \<notin> set (address order)"
    using assms by (simp_all add: markup_free_def order_values_def scalar_values_def)
  have pr: "\<forall>p \<in> set (products order). \<forall>v \<in> set (product_values p). 60 \<notin> set v"
    using assms unfolding markup_free_def order_values_def by auto
  let ?rows = "concat (map product_row_html (products order))"
  have t1: "count_sub (u ''<section'') (products_table_html ?rows @ r) = count_sub (u ''<section'') r"
    for r by (rule count_table(1)) (rule count_rows(1)[OF pr])
  have t2: "count_sub (u ''<h2>'') (products_table_html ?rows @ r) = count_sub (u ''<h2>'') r"
    for r by (rule count_table(2)) (rule count_rows(2)[OF pr])
  have eq: "order_html i order @ s
              = section_heading i @ section_body (products_table_html ?rows) order @ s"
    by (simp add: order_html_def product_rows_loop_eq)
  show "count_sub (u ''<section'') (order_html i order @ s) = Suc (count_sub (u ''<section'') s)"
    unfolding eq by (simp only: count_heading(1) count_body(1)[OF sc t1])
  show "count_sub (u ''<h2>'') (order_html i order @ s) = Suc (count_sub (u ''<h2>'') s)"
    unfolding eq by (simp only: count_heading(2) count_body(2)[OF sc t2])
qed

lemma orders_loop_Cons:
  "orders_loop i (order # os) [] = order_html i order @ orders_loop (Suc i) os []"
  by (simp add: orders_loop_eq[of _ os "order_html i order"] orders_loop_eq[of _ os "[]"])

lemma count_sections:
  assumes "\<forall>order \<in> set os. markup_free order"
  shows "count_sub (u ''<section'') (orders_loop i os [] @ s)
           = length os + count_sub (u ''<section'') s"
    and "count_sub (u ''<h2>'') (orders_loop i os [] @ s) = length os + count_sub (u ''<h2>'') s"
  using assms
  by (induction os arbitrary: i) (simp_all add: orders_loop_Cons count_section del: orders_loop.simps(2))

lemma count_head:
  "count_sub (u ''<section'') (document_head @ s) = count_sub (u ''<section'') s"
  "count_sub (u ''<h2>'') (document_head @ s) = count_sub (u ''<h2>'') s"
  by (simp_all add: document_head_def u_def)

lemma count_tail:
  "count_sub (u ''<section'') document_tail = 0"
  "count_sub (u ''<h2>'') document_tail = 0"
  by (simp_all add: document_tail_def u_def)

text \<open>
  Claim C7, as amended. The rendered document is the fixed head, one section block per
  order record in input order, and the fixed tail. The block at position \<open>k\<close> (counted
  from 0) is the section of the specification for the number \<open>k + 1\<close> and the record
  at position \<open>k\<close>: its heading shows \<open>k + 1\<close> in decimal, whatever the fields of
  the record hold, and its table and its six lines render that record. When no value of
  any record holds the character \<open><\<close>, these blocks are the only sections of the
  document: it holds as many \<open><section\<close> and as many \<open><h2>\<close> as there are
  records.
\<close>

theorem generate_html_sections:
  "generate_html_for_orders orders_data
     = document_head
       @ concat (map (\<lambda>k. spec_section (Suc k) (orders_data ! k)) [0..<length orders_data])
       @ document_tail
   \<and> foldl (\<lambda>a d. 10 * a + (d - 48)) 0 (str_nat (Suc k)) = Suc k
   \<and> ((\<forall>order \<in> set orders_data. markup_free order) \<longrightarrow>
        count_sub (u ''<section'') (generate_html_for_orders orders_data) = length orders_data
        \<and> count_sub (u ''<h2>'') (generate_html_for_orders orders_data) = length orders_data)"
proof (intro conjI impI)
  show "generate_html_for_orders orders_data
     = document_head
       @ concat (map (\<lambda>k. spec_section (Suc k) (orders_data ! k)) [0..<length orders_data])
       @ document_tail"
    by (rule generate_html_spec)
  show "foldl (\<lambda>a d. 10 * a + (d - 48)) 0 (str_nat (Suc k)) = Suc k"
    by (rule str_nat_decimal)
  assume free: "\<forall>order \<in> set orders_data. markup_free order"
  show "count_sub (u ''<section'') (generate_html_for_orders orders_data) = length orders_data"
    by (simp only: generate_html_for_orders_def count_head(1) count_sections(1)[OF free]
          count_tail(1) add_0_right)
  show "count_sub (u ''<h2>'') (generate_html_for_orders orders_data) = length orders_data"
    by (simp only: generate_html_for_orders_def count_head(2) count_sections(2)[OF free]
          count_tail(2) add_0_right)
qed

lemma section_body_spec:
  "section_body t order
     = u ''            '' @ t @ u ''\<newline>'' @ spec_field_lines order
       @ u ''        </section>\<newline>        ''"
  by (simp add: section_body_def spec_field_lines_def field_line_def label_of_captions u_def)

lemma count_indent:
  "count_sub (u ''<section'') (u ''            '' @ s) = count_sub (u ''<section'') s"
  "count_sub (u ''<h2>'') (u ''            '' @ s) = count_sub (u ''<h2>'') s"
  by (simp_all add: u_def)

lemma count_empty_table:
  "count_sub (u ''<section'') (products_table_html [] @ r) = count_sub (u ''<section'') r"
  "count_sub (u ''<h2>'') (products_table_html [] @ r) = count_sub (u ''<h2>'') r"
  by (rule count_table, simp)+

lemma count_markup_lines:
  "count_sub (u ''<section'')
     (u ''\<newline>'' @ spec_field_lines (ex_order ex_section_markup [])
      @ u ''        </section>\<newline>        '' @ document_tail) = 1"
  "count_sub (u ''<h2>'')
     (u ''\<newline>'' @ spec_field_lines (ex_order ex_section_markup [])
      @ u ''        </section>\<newline>        '' @ document_tail) = 1"
  by (simp_all add: spec_field_lines_def field_line_def label_of_captions ex_order_def
        ex_section_markup_def document_tail_def u_def)

text \<open>
  Claim C7 as stated fails: for the one record whose order number is
  \<open>ex_section_markup\<close>, the rendered document holds two sections and two headings.
\<close>

theorem sections_counterexample:
  "count_sub (u ''<section'') (generate_html_for_orders [ex_order ex_section_markup []]) = 2
   \<and> count_sub (u ''<h2>'') (generate_html_for_orders [ex_order ex_section_markup []]) = 2"
proof -
  have doc: "generate_html_for_orders [ex_order ex_section_markup []]
      = document_head @ section_heading 1 @ u ''            '' @ products_table_html []
        @ u ''\<newline>'' @ spec_field_lines (ex_order ex_section_markup [])
        @ u ''        </section>\<newline>        '' @ document_tail"
    by (simp add: generate_html_for_orders_def order_html_def section_body_spec ex_order_def)
  show ?thesis
    by (simp only: doc count_head count_heading count_indent count_empty_table
          count_markup_lines) simp
qed

text \<open>
  Claim C7, as amended, on two orders whose order numbers are 99 and 7: the sections show
  1 and 2, and the document holds two sections.
\<close>

theorem generate_html_sections_witness:
  "generate_html_for_orders [ex_order (u ''99'') [], ex_order (u ''7'') []]
     = document_head
       @ (spec_section 1 (ex_order (u ''99'') []) @ spec_section 2 (ex_order (u ''7'') []))
       @ document_tail
   \<and> str_nat 1 = u ''1'' \<and> str_nat 2 = u ''2''
   \<and> markup_free (ex_order (u ''99'') []) \<and> markup_free (ex_order (u ''7'') [])
   \<and> count_sub (u ''<section'')
         (generate_html_for_orders [ex_order (u ''99'') [], ex_order (u ''7'') []]) = 2
   \<and> count_sub (u ''<h2>'')
         (generate_html_for_orders [ex_order (u ''99'') [], ex_order (u ''7'') []]) = 2"
proof -
  let ?os = "[ex_order (u ''99'') [], ex_order (u ''7'') []]"
  note inst = generate_html_sections[of ?os]
  have f1: "markup_free (ex_order (u ''99'') [])"
    by (simp add: markup_free_def order_values_def scalar_values_def ex_order_def u_def)
  have f2: "markup_free (ex_order (u ''7'') [])"
    by (simp add: markup_free_def order_values_def scalar_values_def ex_order_def u_def)
  have free: "\<forall>order \<in> set ?os. markup_free order" using f1 f2 by simp
  have "generate_html_for_orders ?os
     = document_head
       @ concat (map (\<lambda>k. spec_section (Suc k) (?os ! k)) [0..<length ?os])
       @ document_tail"
    by (rule inst[THEN conjunct1])
  then have dec: "generate_html_for_orders ?os
     = document_head
       @ (spec_section 1 (ex_order (u ''99'') []) @ spec_section 2 (ex_order (u ''7'') []))
       @ document_tail"
    by (simp add: numeral_2_eq_2)
  have cnt: "count_sub (u ''<section'') (generate_html_for_orders ?os) = length ?os
             \<and> count_sub (u ''<h2>'') (generate_html_for_orders ?os) = length ?os"
    using inst[THEN conjunct2, THEN conjunct2] free by blast
  have digits: "str_nat 1 = u ''1'' \<and> str_nat 2 = u ''2''"
    by (simp add: str_nat.simps u_def)
  show ?thesis using dec digits f1 f2 cnt by simp
qed

section \<open>Properties of the request handler\<close>

text \<open>What each step changes of the files and of the list of network calls.\<close>

lemma send_to_telegram_log:
  "send_to_telegram cfg env b f c w = (res, w') \<Longrightarrow>
     files w' = files w \<and> prefix (net_log w) (net_log w')"
  by (auto simp: send_to_telegram_def Let_def split: if_splits sum.splits)

lemma deliver_log:
  "process_orders_deliver cfg env payload od fh w1 = (res, w') \<Longrightarrow> prefix (net_log w1) (net_log w')"
  by (auto simp: process_orders_deliver_def Let_def dest!: send_to_telegram_log
           split: if_splits sum.splits prod.splits option.splits)

lemma input_files:
  "process_orders_input env payload w = (res, w1) \<Longrightarrow> files w1 = files w \<and> prefix (net_log w) (net_log w1)"
  by (auto simp: process_orders_input_def fetch_url_def Let_def
           split: if_splits sum.splits prod.splits option.splits)

text \<open>The handler after authorisation and after the document has been resolved.\<close>

lemma process_orders_after_input:
  assumes "API_KEY cfg = [] \<or> x_api_key = Some (API_KEY cfg)"
      and "process_orders_input env payload w = (Inr html, w1)"
  shows "process_orders cfg env payload x_api_key w =
           (if extract_orders (parse_html env html) = []
            then (Inl (HTTPException 404 (u ''No orders found'')), w1)
            else process_orders_deliver cfg env payload
                   (map extract_order_data (extract_orders (parse_html env html)))
                   (generate_html_for_orders
                      (map extract_order_data (extract_orders (parse_html env html)))) w1)"
  using assms by (auto simp: process_orders_def Let_def)

lemma deliver_result:
  "fst (process_orders_deliver cfg env payload od fh w1) =
     (if in_send_to_telegram payload
      then (case fst (send_to_telegram cfg env (encode_utf8 env fh) (in_filename payload)
                        default_caption
                        (w1\<lparr>files := (files w1)(tmp_name env \<mapsto> encode_utf8 env fh)\<rparr>)) of
              Inl exn \<Rightarrow> Inl (Unhandled exn)
            | Inr r \<Rightarrow> Inr \<lparr> r_ok = True, r_orders = length od, r_sent_to_telegram = True,
                            r_telegram_result = Some r, r_filename = in_filename payload,
                            r_html = (if in_return_html payload then Some fh else None) \<rparr>)
      else Inr \<lparr> r_ok = True, r_orders = length od, r_sent_to_telegram = False,
                 r_telegram_result = None, r_filename = in_filename payload,
                 r_html = (if in_return_html payload then Some fh else None) \<rparr>)"
  by (auto simp: process_orders_deliver_def Let_def split: sum.splits prod.splits)

text \<open>
  Claim C1, as amended. When the request carries a non-empty \<open>url\<close>, the handler
  fetches it whether or not inline \<open>html\<close> is given: the inline text has no influence
  on the outcome, the fetch is the next network call, a fetched text that is not empty
  (status 200) is the document, and for a request that passes the key check the fetch is
  among the network calls of the whole operation. The inline \<open>html\<close> is the document,
  with no network call, when the \<open>url\<close> is absent or empty.
\<close>

theorem url_takes_precedence:
  "(in_url payload = Some url \<and> url \<noteq> [] \<longrightarrow>
      process_orders_input env (payload\<lparr>in_html := h\<rparr>) w = process_orders_input env payload w
      \<and> net_log (snd (process_orders_input env payload w)) = net_log w @ [GetRequest url]
      \<and> (\<forall>r. requests_get env url = Inr r \<and> resp_status_code r = 200 \<and> resp_text r \<noteq> []
             \<longrightarrow> fst (process_orders_input env payload w) = Inr (resp_text r))
      \<and> (API_KEY cfg = [] \<or> x_api_key = Some (API_KEY cfg)
             \<longrightarrow> GetRequest url \<in> set (net_log (snd (process_orders cfg env payload x_api_key w)))))
   \<and> ((in_url payload = None \<or> in_url payload = Some []) \<and> in_html payload = Some html
        \<and> html \<noteq> []
        \<longrightarrow> process_orders_input env payload w = (Inr html, w))"
proof (intro conjI impI allI)
  assume a: "in_url payload = Some url \<and> url \<noteq> []"
  show "process_orders_input env (payload\<lparr>in_html := h\<rparr>) w = process_orders_input env payload w"
    using a by (simp add: process_orders_input_def)
  show lg: "net_log (snd (process_orders_input env payload w)) = net_log w @ [GetRequest url]"
    using a by (auto simp: process_orders_input_def fetch_url_def Let_def split: sum.splits)
  show "fst (process_orders_input env payload w) = Inr (resp_text r)"
    if "requests_get env url = Inr r \<and> resp_status_code r = 200 \<and> resp_text r \<noteq> []" for r
    using a that by (simp add: process_orders_input_def fetch_url_def Let_def)
  show "GetRequest url \<in> set (net_log (snd (process_orders cfg env payload x_api_key w)))"
    if auth: "API_KEY cfg = [] \<or> x_api_key = Some (API_KEY cfg)"
  proof (cases "process_orders_input env payload w")
    case (Pair res w1)
    then have w1: "net_log w1 = net_log w @ [GetRequest url]" using lg by simp
    show ?thesis
    proof (cases res)
      case (Inl e)
      then have "process_orders cfg env payload x_api_key w = (Inl e, w1)"
        using auth Pair by (auto simp: process_orders_def)
      then show ?thesis using w1 by simp
    next
      case (Inr doc)
      show ?thesis
      proof (cases "extract_orders (parse_html env doc) = []")
        case True
        then show ?thesis
          using process_orders_after_input[OF auth Pair[unfolded Inr]] w1 by simp
      next
        case False
        obtain res' w' where d: "process_orders_deliver cfg env payload
                   (map extract_order_data (extract_orders (parse_html env doc)))
                   (generate_html_for_orders
                      (map extract_order_data (extract_orders (parse_html env doc)))) w1 = (res', w')"
          by (cases "process_orders_deliver cfg env payload
                   (map extract_order_data (extract_orders (parse_html env doc)))
                   (generate_html_for_orders
                      (map extract_order_data (extract_orders (parse_html env doc)))) w1") auto
        from deliver_log[OF d] have "set (net_log w1) \<subseteq> set (net_log w')"
          by (rule set_mono_prefix)
        then show ?thesis
          using process_orders_after_input[OF auth Pair[unfolded Inr]] False d w1 by auto
      qed
    qed
  qed
next
  assume "(in_url payload = None \<or> in_url payload = Some []) \<and> in_html payload = Some html \<and> html \<noteq> []"
  then show "process_orders_input env payload w = (Inr html, w)"
    by (auto simp: process_orders_input_def)
qed

text \<open>
  Claim C1 as stated fails: for a request with both \<open>url\<close> and inline \<open>html\<close>, the
  url is fetched and the fetched text is the document, not the inline text.
\<close>

theorem url_precedence_counterexample:
  "process_orders_input
      (ex_env (Inr (ex_response 200 (u ''fetched''))) (Inl (u ''ConnectionError'')) False)
      (ex_payload (Some (u ''http://x'')) (Some (u ''<table ...>'')) True) ex_world
     = (Inr (u ''fetched''), ex_world\<lparr>net_log := [GetRequest (u ''http://x'')]\<rparr>)
   \<and> process_orders_input
      (ex_env (Inr (ex_response 200 (u ''fetched''))) (Inl (u ''ConnectionError'')) False)
      (ex_payload (Some (u ''http://x'')) (Some (u ''<table ...>'')) True) ex_world
     \<noteq> (Inr (u ''<table ...>''), ex_world)"
  by (simp add: process_orders_input_def fetch_url_def ex_env_def ex_payload_def ex_world_def
        ex_response_def u_def)

text \<open>The temporary file at the end of the last step.\<close>

lemma deliver_files_ok:
  "process_orders_deliver cfg env payload od fh w1 = (Inr s, w') \<Longrightarrow> \<not> remove_raises env \<Longrightarrow>
     files w' = (files w1)(tmp_name env := None)"
  by (auto simp: process_orders_deliver_def Let_def dest!: send_to_telegram_log
           split: if_splits sum.splits prod.splits option.splits)

lemma deliver_error:
  "process_orders_deliver cfg env payload od fh w1 = (Inl e, w') \<Longrightarrow> \<exists>exn. e = Unhandled exn"
  by (auto simp: process_orders_deliver_def Let_def
           split: if_splits sum.splits prod.splits option.splits)

lemma input_error_files:
  "process_orders_input env payload w = (Inl e, w1) \<Longrightarrow> files w1 = files w"
  by (rule input_files[THEN conjunct1])


text \<open>The delivery adapter returns a result whenever the outbound call does not raise.\<close>

lemma send_to_telegram_returns:
  assumes "\<forall>req. \<exists>resp. requests_post env req = Inr resp"
  shows "\<exists>r. fst (send_to_telegram cfg env b f c x) = Inr r"
proof (cases "TELEGRAM_BOT_TOKEN cfg = [] \<or> TELEGRAM_CHAT_ID cfg = []")
  case True
  then show ?thesis by (auto simp: send_to_telegram_def)
next
  case False
  let ?req = "\<lparr> post_url = u ''https://api.telegram.org/bot'' @ TELEGRAM_BOT_TOKEN cfg
                                   @ u ''/sendDocument'',
                      post_chat_id = TELEGRAM_CHAT_ID cfg,
                      post_caption = c,
                      post_parse_mode = u ''HTML'',
                      post_filename = f,
                      post_document = b,
                      post_content_type = u ''text/html; charset=utf-8'' \<rparr>"
  obtain resp where "requests_post env ?req = Inr resp" using assms by blast
  then show ?thesis using False by (simp add: send_to_telegram_def Let_def)
qed

text \<open>
  Claim C3, as amended. For a request that reaches the delivery step with delivery
  requested, in an environment where the outbound call returns a response (of any status,
  with any body): the adapter returns a result and the handler returns the success summary
  that carries this result.
\<close>

theorem delivery_result_is_data:
  assumes auth: "API_KEY cfg = [] \<or> x_api_key = Some (API_KEY cfg)"
      and src: "process_orders_input env payload w = (Inr html, w1)"
      and blocks: "extract_orders (parse_html env html) \<noteq> []"
      and send: "in_send_to_telegram payload"
      and post: "\<forall>req. \<exists>resp. requests_post env req = Inr resp"
  shows "\<exists>r. fst (send_to_telegram cfg env (encode_utf8 env (rendered env html))
                   (in_filename payload) default_caption (tmp_written env html w1)) = Inr r
           \<and> fst (process_orders cfg env payload x_api_key w)
               = Inr \<lparr> r_ok = True,
                       r_orders = length (extract_orders (parse_html env html)),
                       r_sent_to_telegram = True,
                       r_telegram_result = Some r,
                       r_filename = in_filename payload,
                       r_html = (if in_return_html payload then Some (rendered env html)
                                 else None) \<rparr>"
proof -
  let ?od = "map extract_order_data (extract_orders (parse_html env html))"
  have eq: "process_orders cfg env payload x_api_key w
          = process_orders_deliver cfg env payload ?od (rendered env html) w1"
    using process_orders_after_input[OF auth src] blocks by (simp add: rendered_def)
  obtain r where r: "fst (send_to_telegram cfg env (encode_utf8 env (rendered env html))
                   (in_filename payload) default_caption (tmp_written env html w1)) = Inr r"
    using send_to_telegram_returns[OF post] by blast
  show ?thesis
    using r send unfolding eq deliver_result by (auto simp: tmp_written_def)
qed

text \<open>
  Claim C8. Without bot token or without destination id, the delivery adapter returns the
  error result (\<open>ok\<close> false, the message \<open>not_set\<close>) and leaves the world as it is,
  so it makes no network call; a request that reaches the delivery step with delivery
  requested returns the success summary with \<open>ok\<close> true that carries this result, and
  makes no network call after its document has been resolved.
\<close>

theorem unconfigured_delivery:
  assumes auth: "API_KEY cfg = [] \<or> x_api_key = Some (API_KEY cfg)"
      and src: "process_orders_input env payload w = (Inr html, w1)"
      and blocks: "extract_orders (parse_html env html) \<noteq> []"
      and send: "in_send_to_telegram payload"
      and nocred: "TELEGRAM_BOT_TOKEN cfg = [] \<or> TELEGRAM_CHAT_ID cfg = []"
  shows "send_to_telegram cfg env file_bytes filename caption wa = (Inr (TgError not_set), wa)
       \<and> \<not> tg_ok (TgError not_set :: 'j tg_result)
       \<and> fst (process_orders cfg env payload x_api_key w)
           = Inr \<lparr> r_ok = True,
                   r_orders = length (extract_orders (parse_html env html)),
                   r_sent_to_telegram = True,
                   r_telegram_result = Some (TgError not_set),
                   r_filename = in_filename payload,
                   r_html = (if in_return_html payload then Some (rendered env html)
                             else None) \<rparr>
       \<and> net_log (snd (process_orders cfg env payload x_api_key w)) = net_log w1"
proof -
  let ?od = "map extract_order_data (extract_orders (parse_html env html))"
  have eq: "process_orders cfg env payload x_api_key w
          = process_orders_deliver cfg env payload ?od (rendered env html) w1"
    using process_orders_after_input[OF auth src] blocks by (simp add: rendered_def)
  have st: "send_to_telegram cfg env b f c x = (Inr (TgError not_set), x)" for b f c x
    using nocred by (auto simp: send_to_telegram_def not_set_def)
  have "net_log (snd (process_orders_deliver cfg env payload ?od (rendered env html) w1)) = net_log w1"
    using send by (simp add: process_orders_deliver_def Let_def st)
  then show ?thesis
    using send st unfolding eq deliver_result by simp
qed

text \<open>
  Claim C9, as amended. When the handler returns its summary and \<open>os.remove\<close> does
  not raise, the temporary file is gone and no other file has changed; when the handler
  fails with an \<open>HTTPException\<close> (key, validation, fetch status, no orders), no file
  has been created.
\<close>

theorem temp_file_cleanup:
  "(process_orders cfg env payload x_api_key w = (Inr s, w') \<and> \<not> remove_raises env
      \<longrightarrow> files w' = (files w)(tmp_name env := None))
   \<and> (process_orders cfg env payload x_api_key w = (Inl (HTTPException sc detail), w')
      \<longrightarrow> files w' = files w)"
proof (intro conjI impI)
  assume a: "process_orders cfg env payload x_api_key w = (Inr s, w') \<and> \<not> remove_raises env"
  then have auth: "API_KEY cfg = [] \<or> x_api_key = Some (API_KEY cfg)"
    by (auto simp: process_orders_def split: if_splits)
  obtain res w1 where i: "process_orders_input env payload w = (res, w1)"
    by (cases "process_orders_input env payload w") auto
  then obtain html where h: "res = Inr html"
    using a auth by (cases res) (auto simp: process_orders_def)
  have f1: "files w1 = files w" using input_files[OF i] by simp
  have "process_orders_deliver cfg env payload
          (map extract_order_data (extract_orders (parse_html env html)))
          (generate_html_for_orders
             (map extract_order_data (extract_orders (parse_html env html)))) w1 = (Inr s, w')"
    using process_orders_after_input[OF auth i[unfolded h]] a by (auto split: if_splits)
  then have "files w' = (files w1)(tmp_name env := None)"
    using a by (intro deliver_files_ok) auto
  then show "files w' = (files w)(tmp_name env := None)" by (simp add: f1)
next
  assume a: "process_orders cfg env payload x_api_key w = (Inl (HTTPException sc detail), w')"
  show "files w' = files w"
  proof (cases "API_KEY cfg = [] \<or> x_api_key = Some (API_KEY cfg)")
    case False
    then show ?thesis using a by (auto simp: process_orders_def)
  next
    case auth: True
    obtain res w1 where i: "process_orders_input env payload w = (res, w1)"
      by (cases "process_orders_input env payload w") auto
    have f1: "files w1 = files w" using input_files[OF i] by simp
    show ?thesis
    proof (cases res)
      case (Inl e)
      then show ?thesis using a auth i f1 by (auto simp: process_orders_def)
    next
      case (Inr html)
      show ?thesis
      proof (cases "extract_orders (parse_html env html) = []")
        case True
        then show ?thesis
          using process_orders_after_input[OF auth i[unfolded Inr]] a f1 by simp
      next
        case False
        then have "process_orders_deliver cfg env payload
          (map extract_order_data (extract_orders (parse_html env html)))
          (generate_html_for_orders
             (map extract_order_data (extract_orders (parse_html env html)))) w1
            = (Inl (HTTPException sc detail), w')"
          using process_orders_after_input[OF auth i[unfolded Inr]] a by simp
        from deliver_error[OF this] show ?thesis by simp
      qed
    qed
  qed
qed

subsection \<open>Evaluation in the example environment\<close>

lemma ex_input_inline:
  "process_orders_input (ex_env g p rm) (ex_payload None (Some (u ''<table ...>'')) send) ex_world
     = (Inr (u ''<table ...>''), ex_world)"
  by (simp add: process_orders_input_def ex_payload_def u_def)


lemma ex_orders:
  "extract_orders (parse_html (ex_env g p rm) (u ''<table ...>'')) = [ex_phone_block]"
  by (simp add: ex_env_def ex_soup_def ex_phone_block_def extract_orders_def
        soup_find_all_class_def u_def)


lemma ex_auth: "API_KEY (ex_cfg t c) = [] \<or> None = Some (API_KEY (ex_cfg t c))"
  by (simp add: ex_cfg_def)

text \<open>
  Claim C1, as amended, on a request with both \<open>url\<close> and \<open>html\<close> and on a request
  with \<open>html\<close> alone.
\<close>

theorem url_takes_precedence_witness:
  "net_log (snd (process_orders_input
      (ex_env (Inr (ex_response 200 (u ''fetched''))) (Inl (u ''ConnectionError'')) False)
      (ex_payload (Some (u ''http://x'')) (Some (u ''<table ...>'')) True) ex_world))
     = [GetRequest (u ''http://x'')]
   \<and> fst (process_orders_input
      (ex_env (Inr (ex_response 200 (u ''fetched''))) (Inl (u ''ConnectionError'')) False)
      (ex_payload (Some (u ''http://x'')) (Some (u ''<table ...>'')) True) ex_world)
     = Inr (u ''fetched'')
   \<and> process_orders_input
      (ex_env (Inr (ex_response 200 (u ''fetched''))) (Inl (u ''ConnectionError'')) False)
      (ex_payload None (Some (u ''<table ...>'')) True) ex_world
     = (Inr (u ''<table ...>''), ex_world)"
proof -
  let ?env = "ex_env (Inr (ex_response 200 (u ''fetched''))) (Inl (u ''ConnectionError'')) False
                :: nat env"
  let ?both = "ex_payload (Some (u ''http://x'')) (Some (u ''<table ...>'')) True"
  let ?inline = "ex_payload None (Some (u ''<table ...>'')) True"
  have a: "in_url ?both = Some (u ''http://x'') \<and> u ''http://x'' \<noteq> []"
    by (simp add: ex_payload_def u_def)
  have g: "requests_get ?env (u ''http://x'') = Inr (ex_response 200 (u ''fetched''))
           \<and> resp_status_code (ex_response 200 (u ''fetched'')) = 200
           \<and> resp_text (ex_response 200 (u ''fetched'')) \<noteq> []"
    by (simp add: ex_env_def ex_response_def u_def)
  have b: "(in_url ?inline = None \<or> in_url ?inline = Some []) \<and>
           in_html ?inline = Some (u ''<table ...>'') \<and> u ''<table ...>'' \<noteq> []"
    by (simp add: ex_payload_def u_def)
  have l: "net_log ex_world = []" by (simp add: ex_world_def)
  from url_takes_precedence[where payload = ?both and url = "u ''http://x''" and env = ?env
         and w = ex_world]
       a g l
  have "net_log (snd (process_orders_input ?env ?both ex_world)) = [GetRequest (u ''http://x'')]
        \<and> fst (process_orders_input ?env ?both ex_world) = Inr (u ''fetched'')"
    by (simp add: ex_response_def)
  moreover from url_takes_precedence[where payload = ?inline and env = ?env and w = ex_world
                    and html = "u ''<table ...>''"] b
  have "process_orders_input ?env ?inline ex_world = (Inr (u ''<table ...>''), ex_world)"
    by blast
  ultimately show ?thesis by simp
qed

lemma ex_process:
  "process_orders (ex_cfg t c) (ex_env g p rm)
      (ex_payload None (Some (u ''<table ...>'')) send) None ex_world
   = process_orders_deliver (ex_cfg t c) (ex_env g p rm)
      (ex_payload None (Some (u ''<table ...>'')) send)
      [extract_order_data ex_phone_block]
      (generate_html_for_orders [extract_order_data ex_phone_block]) ex_world"
  by (simp add: process_orders_after_input[OF ex_auth ex_input_inline] ex_orders)

lemma ex_rendered:
  "rendered (ex_env g p rm) (u ''<table ...>'')
     = generate_html_for_orders [extract_order_data ex_phone_block]"
  by (simp add: rendered_def ex_orders)

lemma ex_send_raises:
  "fst (send_to_telegram (ex_cfg (u ''123:abc'') (u ''42'')) (ex_env g (Inl e) rm) b f c w)
     = Inl e"
  by (simp add: send_to_telegram_def ex_cfg_def ex_env_def u_def)

lemma ex_send_status:
  "fst (send_to_telegram (ex_cfg (u ''123:abc'') (u ''42''))
          (ex_env g (Inr (ex_response sc body)) rm) b f c w)
     = Inr (TgResp (\<not> (400 \<le> sc \<and> sc < 600)) (StatusText sc body))"
  by (simp add: send_to_telegram_def ex_cfg_def ex_env_def ex_response_def resp_ok_def u_def)

lemma ex_send_flag: "in_send_to_telegram (ex_payload a b send) = send"
  by (simp add: ex_payload_def)


text \<open>
  Claim C3 as stated fails: with credentials configured and an outbound call that raises a
  connection error, the request ends with that exception, not with a summary.
\<close>

theorem delivery_exception_counterexample:
  "fst (process_orders (ex_cfg (u ''123:abc'') (u ''42''))
          (ex_env (Inr (ex_response 200 (u ''fetched''))) (Inl (u ''ConnectionError'')) False)
          (ex_payload None (Some (u ''<table ...>'')) True) None ex_world)
     = (Inl (Unhandled (u ''ConnectionError'')) :: error + nat summary)"
  by (simp only: ex_process deliver_result ex_send_flag ex_send_raises) simp

text \<open>
  Claim C3, as amended, where the outbound call is answered with status 502 and a body
  that is not JSON.
\<close>

theorem delivery_result_is_data_witness:
  "fst (process_orders (ex_cfg (u ''123:abc'') (u ''42''))
          (ex_env (Inl (u ''unused'')) (Inr (ex_response 502 (u ''Bad Gateway''))) False)
          (ex_payload None (Some (u ''<table ...>'')) True) None ex_world)
     = Inr \<lparr> r_ok = True, r_orders = 1, r_sent_to_telegram = True,
             r_telegram_result = Some (TgResp False (StatusText 502 (u ''Bad Gateway''))),
             r_filename = u ''all_orders.html'', r_html = None \<rparr>"
proof -
  let ?env = "ex_env (Inl (u ''unused'')) (Inr (ex_response 502 (u ''Bad Gateway''))) False
                :: nat env"
  let ?payload = "ex_payload None (Some (u ''<table ...>'')) True"
  have blocks: "extract_orders (parse_html ?env (u ''<table ...>'')) \<noteq> []"
    by (simp add: ex_orders)
  have send: "in_send_to_telegram ?payload" by (simp add: ex_payload_def)
  have post: "\<forall>req. \<exists>resp. requests_post ?env req = Inr resp" by (simp add: ex_env_def)
  have fields: "in_filename ?payload = u ''all_orders.html'' \<and> \<not> in_return_html ?payload"
    by (simp add: ex_payload_def)
  from delivery_result_is_data[OF ex_auth ex_input_inline blocks send post,
         of "u ''123:abc''" "u ''42''"]
  show ?thesis
    by (auto simp: ex_send_status ex_orders fields)
qed

text \<open>
  Claim C8 without bot token, in an environment whose outbound call would raise.
\<close>

theorem unconfigured_delivery_witness:
  "fst (process_orders (ex_cfg [] (u ''42''))
          (ex_env (Inl (u ''unused'')) (Inl (u ''ConnectionError'')) False)
          (ex_payload None (Some (u ''<table ...>'')) True) None ex_world)
     = Inr \<lparr> r_ok = True, r_orders = 1, r_sent_to_telegram = True,
             r_telegram_result = Some (TgError not_set :: nat tg_result),
             r_filename = u ''all_orders.html'', r_html = None \<rparr>
   \<and> net_log (snd (process_orders (ex_cfg [] (u ''42''))
          (ex_env (Inl (u ''unused'')) (Inl (u ''ConnectionError'')) False :: nat env)
          (ex_payload None (Some (u ''<table ...>'')) True) None ex_world)) = []"
proof -
  let ?env = "ex_env (Inl (u ''unused'')) (Inl (u ''ConnectionError'')) False :: nat env"
  let ?payload = "ex_payload None (Some (u ''<table ...>'')) True"
  have blocks: "extract_orders (parse_html ?env (u ''<table ...>'')) \<noteq> []"
    by (simp add: ex_orders)
  have send: "in_send_to_telegram ?payload" by (simp add: ex_payload_def)
  have nocred: "TELEGRAM_BOT_TOKEN (ex_cfg [] (u ''42'')) = []
                \<or> TELEGRAM_CHAT_ID (ex_cfg [] (u ''42'')) = []"
    by (simp add: ex_cfg_def)
  have fields: "in_filename ?payload = u ''all_orders.html'' \<and> \<not> in_return_html ?payload"
    by (simp add: ex_payload_def)
  have l: "net_log ex_world = []" by (simp add: ex_world_def)
  from unconfigured_delivery[OF ex_auth ex_input_inline blocks send nocred]
  show ?thesis
    by (simp add: ex_orders fields l)
qed

text \<open>
  Claim C9 as stated fails: in the request of the counterexample to C3, the temporary file
  did not exist before the request and exists after it.
\<close>

theorem temp_file_left_counterexample:
  "files ex_world (u ''/tmp/tmpab12.html'') = None
   \<and> fst (process_orders (ex_cfg (u ''123:abc'') (u ''42''))
          (ex_env (Inr (ex_response 200 (u ''fetched''))) (Inl (u ''ConnectionError'')) False)
          (ex_payload None (Some (u ''<table ...>'')) True) None ex_world)
       = (Inl (Unhandled (u ''ConnectionError'')) :: error + nat summary)
   \<and> files (snd (process_orders (ex_cfg (u ''123:abc'') (u ''42''))
          (ex_env (Inr (ex_response 200 (u ''fetched''))) (Inl (u ''ConnectionError'')) False
             :: nat env)
          (ex_payload None (Some (u ''<table ...>'')) True) None ex_world))
        (u ''/tmp/tmpab12.html'')
       \<noteq> None"
proof (intro conjI)
  show "files ex_world (u ''/tmp/tmpab12.html'') = None" by (simp add: ex_world_def)
  show "fst (process_orders (ex_cfg (u ''123:abc'') (u ''42''))
          (ex_env (Inr (ex_response 200 (u ''fetched''))) (Inl (u ''ConnectionError'')) False)
          (ex_payload None (Some (u ''<table ...>'')) True) None ex_world)
       = (Inl (Unhandled (u ''ConnectionError'')) :: error + nat summary)"
    by (simp only: ex_process deliver_result ex_send_flag ex_send_raises) simp
  show "files (snd (process_orders (ex_cfg (u ''123:abc'') (u ''42''))
          (ex_env (Inr (ex_response 200 (u ''fetched''))) (Inl (u ''ConnectionError'')) False
             :: nat env)
          (ex_payload None (Some (u ''<table ...>'')) True) None ex_world))
        (u ''/tmp/tmpab12.html'') \<noteq> None"
    by (simp only: ex_process)
       (simp add: process_orders_deliver_def send_to_telegram_def Let_def ex_cfg_def ex_env_def
          ex_payload_def u_def)
qed

text \<open>
  Claim C9, as amended, on a delivered request and on a request whose fetch is answered
  with status 404.
\<close>

theorem temp_file_cleanup_witness:
  "files (snd (process_orders (ex_cfg (u ''123:abc'') (u ''42''))
          (ex_env (Inl (u ''unused'')) (Inr (ex_response 200 (u ''{}''))) False :: nat env)
          (ex_payload None (Some (u ''<table ...>'')) True) None ex_world))
        (u ''/tmp/tmpab12.html'') = None
   \<and> files (snd (process_orders (ex_cfg [] [])
          (ex_env (Inr (ex_response 404 (u ''gone''))) (Inl (u ''unused'')) False :: nat env)
          (ex_payload (Some (u ''http://x'')) None True) None ex_world)) = Map.empty"
proof -
  let ?env = "ex_env (Inl (u ''unused'')) (Inr (ex_response 200 (u ''{}''))) False :: nat env"
  let ?cfg = "ex_cfg (u ''123:abc'') (u ''42'')"
  let ?payload = "ex_payload None (Some (u ''<table ...>'')) True"
  obtain res w' where p: "process_orders ?cfg ?env ?payload None ex_world = (res, w')"
    by (cases "process_orders ?cfg ?env ?payload None ex_world") auto
  have "fst (process_orders ?cfg ?env ?payload None ex_world)
          = Inr \<lparr> r_ok = True, r_orders = 1, r_sent_to_telegram = True,
             r_telegram_result = Some (TgResp True (StatusText 200 (u ''{}''))),
             r_filename = in_filename ?payload,
             r_html = (if in_return_html ?payload
                       then Some (generate_html_for_orders [extract_order_data ex_phone_block])
                       else None) \<rparr>"
    by (simp only: ex_process deliver_result ex_send_flag ex_send_status) simp
  then obtain s where s: "res = Inr s" using p by simp
  have rm: "\<not> remove_raises ?env" by (simp add: ex_env_def)
  have "files w' = (files ex_world)(tmp_name ?env := None)"
    using temp_file_cleanup[of ?cfg ?env ?payload None ex_world s w'] p s rm by blast
  then have one: "files (snd (process_orders ?cfg ?env ?payload None ex_world))
        (u ''/tmp/tmpab12.html'') = None"
    using p by (simp add: ex_env_def)
  let ?env2 = "ex_env (Inr (ex_response 404 (u ''gone''))) (Inl (u ''unused'')) False :: nat env"
  let ?payload2 = "ex_payload (Some (u ''http://x'')) None True"
  have e2: "process_orders (ex_cfg [] []) ?env2 ?payload2 None ex_world
         = (Inl (HTTPException 400 (u ''Fetch failed: '' @ str_nat 404)),
            ex_world\<lparr>net_log := [GetRequest (u ''http://x'')]\<rparr>)"
    by (simp add: process_orders_def process_orders_input_def fetch_url_def ex_cfg_def
          ex_env_def ex_payload_def ex_response_def ex_world_def u_def)
  have "files (ex_world\<lparr>net_log := [GetRequest (u ''http://x'')]\<rparr>) = files ex_world"
    using temp_file_cleanup[where cfg = "ex_cfg [] []" and env = ?env2 and payload = ?payload2
            and x_api_key = None and w = ex_world
            and w' = "ex_world\<lparr>net_log := [GetRequest (u ''http://x'')]\<rparr>"] e2
    by blast
  then have "files (snd (process_orders (ex_cfg [] []) ?env2 ?payload2 None ex_world))
                    = files ex_world"
    by (simp only: e2 snd_conv)
  then have two: "files (snd (process_orders (ex_cfg [] []) ?env2 ?payload2 None ex_world))
                    = Map.empty"
    by (simp only: ex_world_def world.simps)
  show ?thesis using one two by simp
qed

end
